theory Spec2Isabelle
  imports Complex_Main
begin

section \<open>Request Executor (PropstackClient.request)\<close>

text \<open>
  The client issues one HTTP call and retries it inside a bounded loop
  (\<^verbatim>\<open>for (let attempt = 0; attempt <= MAX_RETRIES; attempt++)\<close>).
  The upstream is external: it is modelled as a function giving, for each attempt
  number, what \<^verbatim>\<open>fetch\<close> does on that attempt (it either rejects, a transport
  failure, or resolves with a response). Every \<^verbatim>\<open>setTimeout\<close> sleep and every
  \<^verbatim>\<open>fetch\<close> call is recorded, in program order, in a trace of events.
\<close>

definition MAX_RETRIES :: nat where
  "MAX_RETRIES = 3"

definition RETRY_BASE_MS :: nat where
  "RETRY_BASE_MS = 1000"

text \<open>
  A response as far as the loop reads it. \<open>retryAfter\<close> is the value of the
  Retry-After header in seconds as \<^verbatim>\<open>Number(retryAfter)\<close> reads it; \<open>None\<close> is a
  missing (or empty, hence falsy) header. \<open>json\<close> is the parsed body, \<open>None\<close> when
  \<^verbatim>\<open>res.json()\<close> throws.
\<close>

record 'j response =
  status :: nat
  statusText :: string
  retryAfter :: "nat option"
  text_body :: string
  json :: "'j option"

datatype 'j fetch_outcome = Threw string | Responded "'j response"

datatype error =
    PropstackError (err_status: nat) (err_statusText: string) (err_detail: string) (err_path: string)
  | OtherError string

text \<open>\<^verbatim>\<open>undefined as T\<close> for a 204, the parsed JSON otherwise.\<close>

datatype 'j payload = NoContent | Json 'j

datatype event = Wait nat | Fetch nat

definition ok :: "'j response \<Rightarrow> bool" where
  "ok res = (200 \<le> status res \<and> status res \<le> 299)"

definition backoff :: "nat \<Rightarrow> nat" where
  "backoff attempt = RETRY_BASE_MS * 2 ^ (attempt - 1)"

text \<open>
  One pass through the loop body after the backoff sleep and the \<^verbatim>\<open>fetch\<close> call:
  either the body ends in \<^verbatim>\<open>continue\<close> (with the new \<^verbatim>\<open>lastError\<close> and whatever it
  slept for Retry-After), or it leaves the function by \<^verbatim>\<open>throw\<close> or \<^verbatim>\<open>return\<close>.
\<close>

datatype 'j step = Continue "error option" "event list" | Leave "error + 'j payload"

definition attempt_once ::
  "'j fetch_outcome \<Rightarrow> string \<Rightarrow> nat \<Rightarrow> error option \<Rightarrow> 'j step"
where
  "attempt_once outcome path attempt lastError =
     (case outcome of
        Threw err \<Rightarrow> Continue (Some (OtherError err)) []
      | Responded res \<Rightarrow>
          if status res = 429 \<and> attempt < MAX_RETRIES then
            Continue lastError
              (case retryAfter res of Some s \<Rightarrow> [Wait (s * 1000)] | None \<Rightarrow> [])
          else if \<not> ok res then
            Leave (Inl (PropstackError (status res) (statusText res) (text_body res) path))
          else if status res = 204 then Leave (Inr NoContent)
          else (case json res of
                  Some j \<Rightarrow> Leave (Inr (Json j))
                | None \<Rightarrow> Leave (Inl (OtherError ''SyntaxError''))))"

definition before_fetch :: "nat \<Rightarrow> event list" where
  "before_fetch attempt = (if attempt > 0 then [Wait (backoff attempt)] else []) @ [Fetch attempt]"

function request_loop ::
  "(nat \<Rightarrow> 'j fetch_outcome) \<Rightarrow> string \<Rightarrow> nat \<Rightarrow> error option \<Rightarrow> (error + 'j payload) \<times> event list"
where
  "request_loop fetch path attempt lastError =
     (if attempt \<le> MAX_RETRIES then
        (case attempt_once (fetch attempt) path attempt lastError of
           Continue lastError' slept \<Rightarrow>
             (case request_loop fetch path (Suc attempt) lastError' of
                (r, evs) \<Rightarrow> (r, before_fetch attempt @ slept @ evs))
         | Leave r \<Rightarrow> (r, before_fetch attempt))
      else
        (Inl (case lastError of
                Some e \<Rightarrow> e
              | None \<Rightarrow> OtherError (''Request to '' @ path @ '' failed after 3 retries'')),
         []))"
  by pat_completeness auto
termination
  by (relation "measure (\<lambda>(fetch, path, attempt, lastError). Suc MAX_RETRIES - attempt)") auto

definition request :: "(nat \<Rightarrow> 'j fetch_outcome) \<Rightarrow> string \<Rightarrow> (error + 'j payload) \<times> event list" where
  "request fetch path = request_loop fetch path 0 None"

text \<open>Observations on a trace: how many fetches were issued, how long the executor slept
  in total, and how long it slept between the previous fetch and attempt \<open>k\<close>.\<close>

fun attempts :: "event list \<Rightarrow> nat" where
  "attempts [] = 0"
| "attempts (Wait ms # es) = attempts es"
| "attempts (Fetch k # es) = Suc (attempts es)"

fun total_wait :: "event list \<Rightarrow> nat" where
  "total_wait [] = 0"
| "total_wait (Wait ms # es) = ms + total_wait es"
| "total_wait (Fetch k # es) = total_wait es"

fun delay_acc :: "nat \<Rightarrow> nat \<Rightarrow> event list \<Rightarrow> nat option" where
  "delay_acc k acc [] = None"
| "delay_acc k acc (Wait ms # es) = delay_acc k (acc + ms) es"
| "delay_acc k acc (Fetch j # es) = (if j = k then Some acc else delay_acc k 0 es)"

definition delay_before :: "nat \<Rightarrow> event list \<Rightarrow> nat option" where
  "delay_before k evs = delay_acc k 0 evs"

text \<open>The transient failure classes: a transport failure, or a 429 response.\<close>

fun transient :: "'j fetch_outcome \<Rightarrow> bool" where
  "transient (Threw err) = True"
| "transient (Responded res) = (status res = 429)"

fun header_seconds :: "'j fetch_outcome \<Rightarrow> nat option" where
  "header_seconds (Threw err) = None"
| "header_seconds (Responded res) = retryAfter res"

text \<open>What one transient failure leaves behind: the \<^verbatim>\<open>lastError\<close> after it, the sleep
  for its Retry-After header, and the error thrown when it happens on the last attempt.\<close>

fun next_error :: "'j fetch_outcome \<Rightarrow> error option \<Rightarrow> error option" where
  "next_error (Threw err) le = Some (OtherError err)"
| "next_error (Responded res) le = le"

definition retry_after_events :: "'j fetch_outcome \<Rightarrow> event list" where
  "retry_after_events outcome =
     (case header_seconds outcome of Some s \<Rightarrow> [Wait (s * 1000)] | None \<Rightarrow> [])"

fun final_error :: "'j fetch_outcome \<Rightarrow> string \<Rightarrow> error" where
  "final_error (Threw err) path = OtherError err"
| "final_error (Responded res) path =
     PropstackError (status res) (statusText res) (text_body res) path"

text \<open>Upstream behaviours used as concrete inputs.\<close>

definition resp :: "nat \<Rightarrow> string \<Rightarrow> nat option \<Rightarrow> string \<Rightarrow> 'j option \<Rightarrow> 'j response" where
  "resp st stt ra bd js =
     \<lparr>status = st, statusText = stt, retryAfter = ra, text_body = bd, json = js\<rparr>"

definition rate_limited_then_ok :: "nat \<Rightarrow> unit fetch_outcome" where
  "rate_limited_then_ok k =
     (if k = 0 then Responded (resp 429 ''Too Many Requests'' (Some 5) [] None)
      else Responded (resp 200 ''OK'' None ''{}'' (Some ())))"

definition network_down_then_404 :: "nat \<Rightarrow> unit fetch_outcome" where
  "network_down_then_404 k =
     (if k = 0 then Threw ''fetch failed''
      else Responded (resp 404 ''Not Found'' None ''{}'' None))"

definition always_rate_limited :: "nat \<Rightarrow> unit fetch_outcome" where
  "always_rate_limited k = Responded (resp 429 ''Too Many Requests'' None [] None)"

section \<open>Shared helpers and upstream data\<close>

text \<open>
  JSON numbers are modelled as rationals (every finite double is one, and the code
  below only compares and adds them); identifiers and counts as naturals; a field of
  type \<^verbatim>\<open>T | null\<close> as \<open>T option\<close>. Only the fields the modelled code reads are
  kept.

  The upstream data is parsed JSON cast to the declared interfaces
  (\<^verbatim>\<open>types/propstack.ts\<close>) without validation, and the scoring code itself tests the
  range bounds of a search profile against \<^verbatim>\<open>undefined\<close> as well as \<^verbatim>\<open>null\<close>. Those
  eight bounds therefore keep the three cases apart: the key is missing from the
  object (\<^verbatim>\<open>undefined\<close>), it is \<^verbatim>\<open>null\<close>, or it is a number. For every other field
  the code reads, \<^verbatim>\<open>undefined\<close> and \<^verbatim>\<open>null\<close> take the same branch (a truthiness test,
  \<^verbatim>\<open>?.\<close>, \<^verbatim>\<open>??\<close>, or the modelled \<^verbatim>\<open>unwrapNumber\<close>), and \<open>None\<close> stands for both.
\<close>

datatype bound = Missing | Null | Num rat

record property =
  p_id :: nat
  p_marketing_type :: "string option"
  p_rs_type :: "string option"
  p_city :: "string option"
  p_price :: "rat option"
  p_base_rent :: "rat option"
  p_number_of_rooms :: "rat option"
  p_living_space :: "rat option"

record search_profile =
  sp_id :: nat
  sp_client_id :: "nat option"
  sp_active :: "bool option"
  sp_marketing_type :: "string option"
  sp_rs_types :: "string list option"
  sp_cities :: "string list option"
  sp_price :: bound
  sp_price_to :: bound
  sp_base_rent :: bound
  sp_base_rent_to :: bound
  sp_living_space :: bound
  sp_living_space_to :: bound
  sp_number_of_rooms :: bound
  sp_number_of_rooms_to :: bound

text \<open>\<^verbatim>\<open>PropstackPaginatedResponse<T>\<close>: the page's items and the optional
  \<^verbatim>\<open>meta.total_count\<close>.\<close>

record 'a page =
  data :: "'a list"
  meta :: "nat option"

text \<open>\<^verbatim>\<open>fmt(value, fallback)\<close> of helpers, on strings: null and the empty string give
  the fallback.\<close>

definition fmt :: "string option \<Rightarrow> string \<Rightarrow> string" where
  "fmt v fallback = (case v of None \<Rightarrow> fallback | Some s \<Rightarrow> if s = [] then fallback else s)"

text \<open>JavaScript truthiness of a \<^verbatim>\<open>string | null\<close>, and \<^verbatim>\<open>xs?.length\<close> of a
  \<^verbatim>\<open>T[] | null\<close> read as a condition.\<close>

definition truthy :: "string option \<Rightarrow> bool" where
  "truthy v = (case v of None \<Rightarrow> False | Some s \<Rightarrow> s \<noteq> [])"

definition has_length :: "'a list option \<Rightarrow> bool" where
  "has_length v = (case v of None \<Rightarrow> False | Some xs \<Rightarrow> xs \<noteq> [])"

text \<open>
  Modelled from the spec: \<^verbatim>\<open>unwrapNumber\<close> is imported from \<^verbatim>\<open>./helpers.js\<close> but its
  definition is not among the source files. The spec speaks of an attribute value
  that is present or absent; on a field of type \<^verbatim>\<open>number | null\<close> the helper is taken
  to return the number when there is one and null otherwise.
\<close>

definition unwrapNumber :: "rat option \<Rightarrow> rat option" where
  "unwrapNumber v = v"

text \<open>\<^verbatim>\<open>String.prototype.toLowerCase\<close> on the ASCII letters (a \<open>char\<close> is a byte; letters
  outside ASCII are left as they are), and \<^verbatim>\<open>String.prototype.includes\<close>.\<close>

definition toLowerCase_char :: "char \<Rightarrow> char" where
  "toLowerCase_char c =
     (if (65::nat) \<le> of_char c \<and> of_char c \<le> (90::nat) then char_of (of_char c + (32::nat)) else c)"

definition toLowerCase :: "string \<Rightarrow> string" where
  "toLowerCase s = map toLowerCase_char s"

fun includes_str :: "string \<Rightarrow> string \<Rightarrow> bool" where
  "includes_str [] needle = (needle = [])"
| "includes_str (h # hs) needle =
     (take (length needle) (h # hs) = needle \<or> includes_str hs needle)"

section \<open>Scoring Engine (match\_contacts\_to\_property, step 3)\<close>

text \<open>
  The scoring dimensions in the order of the source. Each message the source pushes
  onto \<^verbatim>\<open>matches\<close> or \<^verbatim>\<open>mismatches\<close> is represented by the dimension it reports (its
  wording is formatting).
\<close>

datatype criterion = MarketingType | City | Price | Rent | Rooms | LivingSpace | PropertyType

record match_state =
  score :: nat
  maxScore :: nat
  matches :: "criterion list"
  mismatches :: "criterion list"

definition init_state :: match_state where
  "init_state = \<lparr>score = 0, maxScore = 0, matches = [], mismatches = []\<rparr>"

text \<open>The common shape of the seven blocks once their guard holds:
  \<^verbatim>\<open>maxScore += w; if (hit) { score += w; matches.push(..) } else { mismatches.push(..) }\<close>.\<close>

definition tally :: "criterion \<Rightarrow> nat \<Rightarrow> bool \<Rightarrow> match_state \<Rightarrow> match_state" where
  "tally c w hit st =
     (if hit then st\<lparr>maxScore := maxScore st + w, score := score st + w, matches := matches st @ [c]\<rparr>
      else st\<lparr>maxScore := maxScore st + w, mismatches := mismatches st @ [c]\<rparr>)"

text \<open>\<^verbatim>\<open>(lo === null || lo === undefined || v >= lo) && (hi === null || hi === undefined || v <= hi)\<close>\<close>

definition inRange :: "bound \<Rightarrow> bound \<Rightarrow> rat \<Rightarrow> bool" where
  "inRange lo hi v =
     ((case lo of Null \<Rightarrow> True | Missing \<Rightarrow> True | Num l \<Rightarrow> v \<ge> l) \<and>
      (case hi of Null \<Rightarrow> True | Missing \<Rightarrow> True | Num h \<Rightarrow> v \<le> h))"

text \<open>\<^verbatim>\<open>(sp.x !== null || sp.x_to !== null) && propX !== null\<close>, then the range block.
  The guard compares with \<^verbatim>\<open>null\<close> only, so a missing bound passes it.\<close>

definition score_range ::
  "criterion \<Rightarrow> nat \<Rightarrow> bound \<Rightarrow> bound \<Rightarrow> rat option \<Rightarrow> match_state \<Rightarrow> match_state"
where
  "score_range c w lo hi propValue st =
     (case propValue of
        None \<Rightarrow> st
      | Some v \<Rightarrow> if lo \<noteq> Null \<or> hi \<noteq> Null then tally c w (inRange lo hi v) st else st)"

fun score_dimension :: "criterion \<Rightarrow> property \<Rightarrow> search_profile \<Rightarrow> match_state \<Rightarrow> match_state" where
  "score_dimension MarketingType prop sp st =
     (if truthy (sp_marketing_type sp) \<and> truthy (p_marketing_type prop)
      then tally MarketingType 3 (sp_marketing_type sp = p_marketing_type prop) st
      else st)"
| "score_dimension City prop sp st =
     (let propCity = fmt (p_city prop) [] in
      if has_length (sp_cities sp) \<and> propCity \<noteq> []
      then tally City 3
             (list_ex (\<lambda>c. includes_str (toLowerCase propCity) (toLowerCase c)) (the (sp_cities sp))) st
      else st)"
| "score_dimension Price prop sp st =
     score_range Price 2 (sp_price sp) (sp_price_to sp) (unwrapNumber (p_price prop)) st"
| "score_dimension Rent prop sp st =
     score_range Rent 2 (sp_base_rent sp) (sp_base_rent_to sp) (unwrapNumber (p_base_rent prop)) st"
| "score_dimension Rooms prop sp st =
     score_range Rooms 2 (sp_number_of_rooms sp) (sp_number_of_rooms_to sp)
       (unwrapNumber (p_number_of_rooms prop)) st"
| "score_dimension LivingSpace prop sp st =
     score_range LivingSpace 1 (sp_living_space sp) (sp_living_space_to sp)
       (unwrapNumber (p_living_space prop)) st"
| "score_dimension PropertyType prop sp st =
     (let propRsType = fmt (p_rs_type prop) [] in
      if has_length (sp_rs_types sp) \<and> propRsType \<noteq> []
      then tally PropertyType 2 (propRsType \<in> set (the (sp_rs_types sp))) st
      else st)"

definition dimensions :: "criterion list" where
  "dimensions = [MarketingType, City, Price, Rent, Rooms, LivingSpace, PropertyType]"

definition score_profile :: "property \<Rightarrow> search_profile \<Rightarrow> match_state" where
  "score_profile prop sp = fold (\<lambda>c. score_dimension c prop sp) dimensions init_state"

record match_result =
  profileId :: nat
  clientId :: "nat option"
  r_score :: nat
  r_maxScore :: nat
  r_matches :: "criterion list"
  r_mismatches :: "criterion list"

definition to_result :: "search_profile \<Rightarrow> match_state \<Rightarrow> match_result" where
  "to_result sp st =
     \<lparr>profileId = sp_id sp, clientId = sp_client_id sp, r_score = score st,
      r_maxScore = maxScore st, r_matches = matches st, r_mismatches = mismatches st\<rparr>"

text \<open>The loop over \<^verbatim>\<open>allProfiles\<close>: inactive profiles (\<^verbatim>\<open>!sp.active\<close>, so also a null
  flag) are skipped, and only a profile with \<^verbatim>\<open>score > 0\<close> is pushed.\<close>

fun score_profiles :: "property \<Rightarrow> search_profile list \<Rightarrow> match_result list" where
  "score_profiles prop [] = []"
| "score_profiles prop (sp # sps) =
     (if sp_active sp \<noteq> Some True then score_profiles prop sps
      else (let st = score_profile prop sp in
            if score st > 0 then to_result sp st # score_profiles prop sps
            else score_profiles prop sps))"

text \<open>\<^verbatim>\<open>(a, b) => b.score - a.score || a.mismatches.length - b.mismatches.length\<close>\<close>

definition compare_results :: "match_result \<Rightarrow> match_result \<Rightarrow> int" where
  "compare_results a b =
     (if int (r_score b) - int (r_score a) \<noteq> 0 then int (r_score b) - int (r_score a)
      else int (length (r_mismatches a)) - int (length (r_mismatches b)))"

text \<open>\<^verbatim>\<open>Array.prototype.sort\<close> is stable; with a consistent comparator its result is the one
  of a stable insertion sort.\<close>

fun insert_by :: "('a \<Rightarrow> 'a \<Rightarrow> int) \<Rightarrow> 'a \<Rightarrow> 'a list \<Rightarrow> 'a list" where
  "insert_by cmp x [] = [x]"
| "insert_by cmp x (y # ys) = (if cmp x y \<le> 0 then x # y # ys else y # insert_by cmp x ys)"

definition sort_by :: "('a \<Rightarrow> 'a \<Rightarrow> int) \<Rightarrow> 'a list \<Rightarrow> 'a list" where
  "sort_by cmp xs = foldr (insert_by cmp) xs []"

text \<open>What the tool answers once the profiles are fetched: the two plain messages, or
  the header's numbers (\<^verbatim>\<open>results.length\<close>, \<^verbatim>\<open>allProfiles.length\<close>) with the top
  list.\<close>

datatype match_output =
    NoProfilesFound
  | NoMatchingProfiles nat
  | MatchList (found: nat) (fetched: nat) (top: "match_result list")

definition rank_profiles :: "property \<Rightarrow> search_profile list \<Rightarrow> match_output" where
  "rank_profiles prop allProfiles =
     (if allProfiles = [] then NoProfilesFound
      else (let results = sort_by compare_results (score_profiles prop allProfiles);
                top = take 20 results
            in if top = [] then NoMatchingProfiles (length allProfiles)
               else MatchList (length results) (length allProfiles) top))"

text \<open>The reference property and the two criteria-sets of the spec's scenarios; every
  field the scenario does not mention is null, and the profiles are active.\<close>

definition no_criteria :: search_profile where
  "no_criteria =
     \<lparr>sp_id = 0, sp_client_id = None, sp_active = Some True, sp_marketing_type = None,
      sp_rs_types = None, sp_cities = None, sp_price = Null, sp_price_to = Null,
      sp_base_rent = Null, sp_base_rent_to = Null, sp_living_space = Null,
      sp_living_space_to = Null, sp_number_of_rooms = Null, sp_number_of_rooms_to = Null\<rparr>"

definition berlin_flat :: property where
  "berlin_flat =
     \<lparr>p_id = 1, p_marketing_type = Some ''BUY'', p_rs_type = None, p_city = Some ''Berlin'',
      p_price = Some 350000, p_base_rent = None, p_number_of_rooms = None,
      p_living_space = None\<rparr>"

definition buyer_profile :: search_profile where
  "buyer_profile =
     no_criteria\<lparr>sp_id := 11, sp_client_id := Some 101, sp_marketing_type := Some ''BUY'',
       sp_cities := Some [''Berlin'', ''Potsdam''], sp_price := Num 300000,
       sp_price_to := Num 400000\<rparr>"

definition renter_profile :: search_profile where
  "renter_profile =
     no_criteria\<lparr>sp_id := 12, sp_client_id := Some 102, sp_marketing_type := Some ''RENT'',
       sp_cities := Some [''Munich'']\<rparr>"

text \<open>Two more candidates for the same property: one naming only the city, one
  naming the city and the other marketing type. Both score 3; the second has a
  mismatch.\<close>

definition city_profile :: search_profile where
  "city_profile =
     no_criteria\<lparr>sp_id := 14, sp_client_id := Some 104, sp_cities := Some [''berlin'']\<rparr>"

definition contested_profile :: search_profile where
  "contested_profile =
     no_criteria\<lparr>sp_id := 15, sp_client_id := Some 105, sp_marketing_type := Some ''RENT'',
       sp_cities := Some [''Berlin'']\<rparr>"

text \<open>An active profile with no criteria at all whose JSON object has no keys for the
  range bounds.\<close>

definition keyless_profile :: search_profile where
  "keyless_profile =
     no_criteria\<lparr>sp_id := 13, sp_client_id := Some 103, sp_price := Missing,
       sp_price_to := Missing, sp_base_rent := Missing, sp_base_rent_to := Missing,
       sp_living_space := Missing, sp_living_space_to := Missing,
       sp_number_of_rooms := Missing, sp_number_of_rooms_to := Missing\<rparr>"

text \<open>
  The spec's reading of a dimension, in its own words: the candidate's criteria-set
  \<^emph>\<open>specifies a constraint\<close> for it (a type, at least one city, at least one bound of
  a range, at least one property type), and the reference property \<^emph>\<open>has a
  corresponding attribute value\<close>; and the reference weights.
\<close>

definition given :: "string option \<Rightarrow> bool" where
  "given v = (v \<noteq> None \<and> v \<noteq> Some [])"

definition some_listed :: "string list option \<Rightarrow> bool" where
  "some_listed v = (v \<noteq> None \<and> v \<noteq> Some [])"

fun is_number :: "bound \<Rightarrow> bool" where
  "is_number (Num r) = True"
| "is_number Null = False"
| "is_number Missing = False"

fun spec_specifies :: "criterion \<Rightarrow> search_profile \<Rightarrow> bool" where
  "spec_specifies MarketingType sp = given (sp_marketing_type sp)"
| "spec_specifies City sp = some_listed (sp_cities sp)"
| "spec_specifies Price sp = (is_number (sp_price sp) \<or> is_number (sp_price_to sp))"
| "spec_specifies Rent sp = (is_number (sp_base_rent sp) \<or> is_number (sp_base_rent_to sp))"
| "spec_specifies Rooms sp = (is_number (sp_number_of_rooms sp) \<or> is_number (sp_number_of_rooms_to sp))"
| "spec_specifies LivingSpace sp = (is_number (sp_living_space sp) \<or> is_number (sp_living_space_to sp))"
| "spec_specifies PropertyType sp = some_listed (sp_rs_types sp)"

fun spec_has_value :: "criterion \<Rightarrow> property \<Rightarrow> bool" where
  "spec_has_value MarketingType prop = given (p_marketing_type prop)"
| "spec_has_value City prop = given (p_city prop)"
| "spec_has_value Price prop = (p_price prop \<noteq> None)"
| "spec_has_value Rent prop = (p_base_rent prop \<noteq> None)"
| "spec_has_value Rooms prop = (p_number_of_rooms prop \<noteq> None)"
| "spec_has_value LivingSpace prop = (p_living_space prop \<noteq> None)"
| "spec_has_value PropertyType prop = given (p_rs_type prop)"

fun weight :: "criterion \<Rightarrow> nat" where
  "weight MarketingType = 3"
| "weight City = 3"
| "weight Price = 2"
| "weight Rent = 2"
| "weight Rooms = 2"
| "weight LivingSpace = 1"
| "weight PropertyType = 2"

text \<open>The profiles the declared interface describes: every range bound is a number or
  null.\<close>

definition declared_bounds :: "search_profile \<Rightarrow> bool" where
  "declared_bounds sp =
     (sp_price sp \<noteq> Missing \<and> sp_price_to sp \<noteq> Missing \<and>
      sp_base_rent sp \<noteq> Missing \<and> sp_base_rent_to sp \<noteq> Missing \<and>
      sp_living_space sp \<noteq> Missing \<and> sp_living_space_to sp \<noteq> Missing \<and>
      sp_number_of_rooms sp \<noteq> Missing \<and> sp_number_of_rooms_to sp \<noteq> Missing)"

definition applicable :: "criterion \<Rightarrow> property \<Rightarrow> search_profile \<Rightarrow> bool" where
  "applicable c prop sp = (spec_specifies c sp \<and> spec_has_value c prop)"

text \<open>The order the comparator asks for: higher score first, fewer mismatches first
  among equal scores.\<close>

definition ranked_before :: "match_result \<Rightarrow> match_result \<Rightarrow> bool" where
  "ranked_before a b =
     (r_score a > r_score b \<or>
      (r_score a = r_score b \<and> length (r_mismatches a) \<le> length (r_mismatches b)))"

section \<open>Tool results\<close>

text \<open>A tool handler ends in \<^verbatim>\<open>textResult(..)\<close> with the rendered content, or in
  \<^verbatim>\<open>errorResult(entity, err)\<close>.\<close>

datatype 'c tool_result = TextResult 'c | ErrorResult string error

section \<open>Pagination walks\<close>

text \<open>
  The upstream is a function from the request's \<^verbatim>\<open>page\<close> (and \<^verbatim>\<open>per_page\<close>) to what
  \<^verbatim>\<open>client.get\<close> does: it throws (\<open>Inl\<close>) or returns a page. A throw inside the walk is
  caught by the handler's \<^verbatim>\<open>try/catch\<close> and the items gathered so far are dropped.

  match\_contacts\_to\_property, step 2:
  \<^verbatim>\<open>while (hasMore && allProfiles.length < maxProfiles)\<close>, asking for
  \<^verbatim>\<open>Math.min(100, maxProfiles - allProfiles.length)\<close> items per page.
\<close>

function walk_profiles ::
  "(nat \<Rightarrow> nat \<Rightarrow> error + 'a page) \<Rightarrow> nat \<Rightarrow> nat \<Rightarrow> bool \<Rightarrow> 'a list \<Rightarrow> error + 'a list"
where
  "walk_profiles fetch maxProfiles pg hasMore allProfiles =
     (if hasMore \<and> length allProfiles < maxProfiles then
        (case fetch pg (min 100 (maxProfiles - length allProfiles)) of
           Inl e \<Rightarrow> Inl e
         | Inr res \<Rightarrow>
             if data res \<noteq> [] then
               walk_profiles fetch maxProfiles (Suc pg)
                 (length (allProfiles @ data res) < (case meta res of Some t \<Rightarrow> t | None \<Rightarrow> 0) \<and>
                  length (allProfiles @ data res) < maxProfiles)
                 (allProfiles @ data res)
             else walk_profiles fetch maxProfiles pg False allProfiles)
      else Inr allProfiles)"
  by pat_completeness auto
termination
  by (relation "measure (\<lambda>(fetch, maxProfiles, pg, hasMore, allProfiles).
        2 * (maxProfiles - length allProfiles) + (if hasMore then 1 else 0))")
     (auto simp: neq_Nil_conv)

definition match_contacts_to_property ::
  "(error + property) \<Rightarrow> (nat \<Rightarrow> nat \<Rightarrow> error + search_profile page) \<Rightarrow> nat option
     \<Rightarrow> match_output tool_result"
where
  "match_contacts_to_property getProperty fetch max_profiles =
     (case getProperty of
        Inl e \<Rightarrow> ErrorResult ''Property matching'' e
      | Inr property \<Rightarrow>
          (case walk_profiles fetch (case max_profiles of Some m \<Rightarrow> m | None \<Rightarrow> 1000) 1 True [] of
             Inl e \<Rightarrow> ErrorResult ''Property matching'' e
           | Inr allProfiles \<Rightarrow> TextResult (rank_profiles property allProfiles)))"

text \<open>
  pipeline\_summary: \<^verbatim>\<open>do { .. } while (allDeals.length < (totalCount ?? 0) &&
  allDeals.length < maxDeals)\<close> with a fixed \<^verbatim>\<open>per_page: 100\<close>. Nothing in the loop
  bounds the number of pages when the upstream keeps answering with empty pages and a
  large total, so the walk is a partial function: \<open>None\<close> is a walk that never
  returns. Its result carries \<^verbatim>\<open>allDeals\<close>, the last \<^verbatim>\<open>totalCount\<close> and the final value
  of \<^verbatim>\<open>page\<close> (one more than the number of pages fetched).
\<close>

definition maxDeals :: nat where
  "maxDeals = 2000"

definition push_page :: "'a list \<Rightarrow> 'a page \<Rightarrow> 'a list" where
  "push_page allDeals res = (if data res \<noteq> [] then allDeals @ data res else allDeals)"

definition walk_on :: "'a list \<Rightarrow> nat option \<Rightarrow> bool" where
  "walk_on allDeals totalCount =
     (length allDeals < (case totalCount of Some t \<Rightarrow> t | None \<Rightarrow> 0) \<and> length allDeals < maxDeals)"

partial_function (option) walk_deals ::
  "(nat \<Rightarrow> error + 'a page) \<Rightarrow> nat \<Rightarrow> 'a list \<Rightarrow> (error + 'a list \<times> nat option \<times> nat) option"
where
  "walk_deals fetch pg allDeals =
     (case fetch pg of
        Inl e \<Rightarrow> Some (Inl e)
      | Inr res \<Rightarrow>
          if walk_on (push_page allDeals res) (meta res)
          then walk_deals fetch (Suc pg) (push_page allDeals res)
          else Some (Inr (push_page allDeals res, meta res, Suc pg)))"

datatype warning = SummaryCapped nat nat

text \<open>\<^verbatim>\<open>if (totalCount !== undefined && allDeals.length >= maxDeals && totalCount > maxDeals)\<close>\<close>

definition cap_warnings :: "'a list \<Rightarrow> nat option \<Rightarrow> warning list" where
  "cap_warnings allDeals totalCount =
     (case totalCount of
        None \<Rightarrow> []
      | Some t \<Rightarrow> if length allDeals \<ge> maxDeals \<and> t > maxDeals then [SummaryCapped maxDeals t] else [])"

text \<open>
  A model of the upstream collection for the scenarios (the API is external to the
  repository): the items of page \<open>pg\<close> at \<open>per\<close> items a page, with the collection's
  size as \<^verbatim>\<open>meta.total_count\<close>.
\<close>

definition serve :: "'a list \<Rightarrow> nat \<Rightarrow> nat \<Rightarrow> error + 'a page" where
  "serve items pg per = Inr \<lparr>data = take per (drop ((pg - 1) * per) items), meta = Some (length items)\<rparr>"

text \<open>The same collection answering without \<^verbatim>\<open>meta\<close>, at 100 items a page.\<close>

definition serve_without_meta :: "'a list \<Rightarrow> nat \<Rightarrow> error + 'a page" where
  "serve_without_meta items pg = Inr \<lparr>data = take 100 (drop ((pg - 1) * 100) items), meta = None\<rparr>"

definition numbered_profile :: "nat \<Rightarrow> search_profile" where
  "numbered_profile i = buyer_profile\<lparr>sp_id := i\<rparr>"

definition upstream_profiles :: "nat \<Rightarrow> search_profile list" where
  "upstream_profiles n = map numbered_profile [0..<n]"

section \<open>Aggregation Engine (pipeline\_summary)\<close>

record deal =
  d_id :: nat
  d_deal_stage_id :: "nat option"
  d_sold_price :: "rat option"
  d_property :: "property option"
  d_created_at :: "string option"
  d_updated_at :: "string option"

record deal_stage =
  ds_id :: nat
  ds_name :: "string option"

record deal_pipeline =
  dp_id :: nat
  dp_name :: "string option"
  dp_deal_stages :: "deal_stage list option"

text \<open>\<^verbatim>\<open>`${n}`\<close> of a natural number: its decimal digits.\<close>

definition digit_char :: "nat \<Rightarrow> char" where
  "digit_char n = char_of (48 + n)"

function string_of_nat :: "nat \<Rightarrow> string" where
  "string_of_nat n = (if n < 10 then [digit_char n] else string_of_nat (n div 10) @ [digit_char (n mod 10)])"
  by pat_completeness auto
termination
  by (relation "measure (\<lambda>n. n)") auto

text \<open>The stage name lookup: \<^verbatim>\<open>stageNames[s.id] = s.name ?? "Unnamed"\<close> for every stage of
  every pipeline, later entries overwriting earlier ones.\<close>

definition add_stage :: "deal_stage \<Rightarrow> (nat \<rightharpoonup> string) \<Rightarrow> (nat \<rightharpoonup> string)" where
  "add_stage s names = names(ds_id s \<mapsto> (case ds_name s of Some n \<Rightarrow> n | None \<Rightarrow> ''Unnamed''))"

definition add_pipeline :: "deal_pipeline \<Rightarrow> (nat \<rightharpoonup> string) \<Rightarrow> (nat \<rightharpoonup> string)" where
  "add_pipeline p names = (case dp_deal_stages p of None \<Rightarrow> names | Some ss \<Rightarrow> fold add_stage ss names)"

definition build_stageNames :: "deal_pipeline list \<Rightarrow> (nat \<rightharpoonup> string)" where
  "build_stageNames pipelines = fold add_pipeline pipelines Map.empty"

text \<open>\<^verbatim>\<open>d.deal_stage_id ? (stageNames[d.deal_stage_id] ?? `Stage #${d.deal_stage_id}`) : "No stage"\<close>;
  the id 0 is falsy.\<close>

definition stageName :: "(nat \<rightharpoonup> string) \<Rightarrow> deal \<Rightarrow> string" where
  "stageName stageNames d =
     (case d_deal_stage_id d of
        None \<Rightarrow> ''No stage''
      | Some i \<Rightarrow>
          if i = 0 then ''No stage''
          else (case stageNames i of Some n \<Rightarrow> n | None \<Rightarrow> ''Stage #'' @ string_of_nat i))"

text \<open>\<^verbatim>\<open>unwrapNumber(d.sold_price) ?? unwrapNumber(d.property?.price) ?? 0\<close>\<close>

definition deal_price :: "deal \<Rightarrow> rat" where
  "deal_price d =
     (case unwrapNumber (d_sold_price d) of
        Some v \<Rightarrow> v
      | None \<Rightarrow>
          (case unwrapNumber (case d_property d of None \<Rightarrow> None | Some p \<Rightarrow> p_price p) of
             Some v \<Rightarrow> v
           | None \<Rightarrow> 0))"

definition staleThresholdMs :: int where
  "staleThresholdMs = 14 * 24 * 60 * 60 * 1000"

text \<open>
  \<^verbatim>\<open>const lastUpdate = d.updated_at ?? d.created_at;
  if (lastUpdate && (now.getTime() - new Date(lastUpdate).getTime()) > staleThresholdMs)\<close>.
  The date parser is the platform's: it is a parameter \<open>getTime\<close>, giving the
  milliseconds of a timestamp string, or \<open>None\<close> where \<^verbatim>\<open>getTime()\<close> is NaN (every
  comparison with NaN is false). \<open>now\<close> is \<^verbatim>\<open>now.getTime()\<close>.
\<close>

definition lastUpdate :: "deal \<Rightarrow> string option" where
  "lastUpdate d = (case d_updated_at d of Some s \<Rightarrow> Some s | None \<Rightarrow> d_created_at d)"

definition is_stale :: "(string \<Rightarrow> int option) \<Rightarrow> int \<Rightarrow> deal \<Rightarrow> bool" where
  "is_stale getTime now d =
     (truthy (lastUpdate d) \<and>
      (case getTime (the (lastUpdate d)) of
         None \<Rightarrow> False
       | Some t \<Rightarrow> now - t > staleThresholdMs))"

record stage_stat =
  st_count :: nat
  st_value :: rat
  st_deals :: "deal list"

record aggregate =
  stageStats :: "string \<rightharpoonup> stage_stat"
  staleDeals :: "deal list"
  totalDeals :: nat
  totalValue :: rat

definition empty_aggregate :: aggregate where
  "empty_aggregate = \<lparr>stageStats = Map.empty, staleDeals = [], totalDeals = 0, totalValue = 0\<rparr>"

text \<open>The bucket a deal is added to: the stored one, or a fresh one
  (\<^verbatim>\<open>if (!stageStats[stageName]) stageStats[stageName] = { count: 0, value: 0, deals: [] }\<close>).\<close>

definition old_stat :: "aggregate \<Rightarrow> string \<Rightarrow> stage_stat" where
  "old_stat agg key =
     (case stageStats agg key of
        None \<Rightarrow> \<lparr>st_count = 0, st_value = 0, st_deals = []\<rparr>
      | Some s \<Rightarrow> s)"

text \<open>One pass of the body of \<^verbatim>\<open>for (const d of dealList)\<close>.\<close>

definition aggregate_deal ::
  "(nat \<rightharpoonup> string) \<Rightarrow> (string \<Rightarrow> int option) \<Rightarrow> int \<Rightarrow> deal \<Rightarrow> aggregate \<Rightarrow> aggregate"
where
  "aggregate_deal stageNames getTime now d agg =
     (let key = stageName stageNames d;
          old = old_stat agg key;
          price = deal_price d
      in \<lparr>stageStats = (stageStats agg)(key \<mapsto>
              \<lparr>st_count = st_count old + 1, st_value = st_value old + price,
               st_deals = st_deals old @ [d]\<rparr>),
          staleDeals = (if is_stale getTime now d then staleDeals agg @ [d] else staleDeals agg),
          totalDeals = totalDeals agg + 1,
          totalValue = totalValue agg + price\<rparr>)"

definition aggregate_deals ::
  "(nat \<rightharpoonup> string) \<Rightarrow> (string \<Rightarrow> int option) \<Rightarrow> int \<Rightarrow> deal list \<Rightarrow> aggregate"
where
  "aggregate_deals stageNames getTime now dealList =
     fold (aggregate_deal stageNames getTime now) dealList empty_aggregate"

text \<open>What the summary shows: the header's total (\<^verbatim>\<open>deals.meta?.total_count ?? totalDeals\<close>),
  the aggregate, and the warnings.\<close>

record summary =
  shown_total :: nat
  aggregated :: aggregate
  warnings :: "warning list"

definition summarise ::
  "deal_pipeline list \<Rightarrow> (string \<Rightarrow> int option) \<Rightarrow> int \<Rightarrow> deal list \<Rightarrow> nat option \<Rightarrow> summary"
where
  "summarise pipelines getTime now allDeals totalCount =
     (let agg = aggregate_deals (build_stageNames pipelines) getTime now allDeals
      in \<lparr>shown_total = (case totalCount of Some t \<Rightarrow> t | None \<Rightarrow> totalDeals agg),
          aggregated = agg,
          warnings = cap_warnings allDeals totalCount\<rparr>)"

definition pipeline_summary ::
  "(error + deal_pipeline list) \<Rightarrow> (nat \<Rightarrow> error + deal page) \<Rightarrow> (string \<Rightarrow> int option) \<Rightarrow> int
     \<Rightarrow> summary tool_result option"
where
  "pipeline_summary getPipelines fetch getTime now =
     (case getPipelines of
        Inl e \<Rightarrow> Some (ErrorResult ''Pipeline summary'' e)
      | Inr pipelines \<Rightarrow>
          (case walk_deals fetch 1 [] of
             None \<Rightarrow> None
           | Some (Inl e) \<Rightarrow> Some (ErrorResult ''Pipeline summary'' e)
           | Some (Inr (allDeals, totalCount, pg)) \<Rightarrow>
               Some (TextResult (summarise pipelines getTime now allDeals totalCount))))"

text \<open>
  The spec's reading, in its own words: a deal's value is its own sold value if
  present, else its linked property's list price if present, else zero; a deal is
  stale when now minus its last-update timestamp (the update time if present, else the
  creation time) exceeds 14 days, and never when it has neither timestamp.
\<close>

definition spec_value :: "deal \<Rightarrow> rat" where
  "spec_value d =
     (if d_sold_price d \<noteq> None then the (d_sold_price d)
      else if d_property d \<noteq> None \<and> p_price (the (d_property d)) \<noteq> None
           then the (p_price (the (d_property d)))
      else 0)"

definition spec_last_update :: "deal \<Rightarrow> string option" where
  "spec_last_update d = (if d_updated_at d \<noteq> None then d_updated_at d else d_created_at d)"

definition fourteen_days :: int where
  "fourteen_days = 14 * 86400000"

definition spec_stale :: "(string \<Rightarrow> int option) \<Rightarrow> int \<Rightarrow> deal \<Rightarrow> bool" where
  "spec_stale getTime now d =
     (case spec_last_update d of
        None \<Rightarrow> False
      | Some stamp \<Rightarrow> (case getTime stamp of None \<Rightarrow> False | Some t \<Rightarrow> now - t > fourteen_days))"

text \<open>
  The spec's scenario: three deals in one stage, two updated 20 days ago with no sold
  price and linked property prices 200000 and 300000, one updated yesterday with sold
  price 500000. The clock reads the three timestamps the scenario uses; now is
  1970-01-31T00:00:00Z.
\<close>

definition scenario_getTime :: "string \<Rightarrow> int option" where
  "scenario_getTime stamp =
     (if stamp = ''1970-01-11T00:00:00Z'' then Some (10 * 86400000)
      else if stamp = ''1970-01-30T00:00:00Z'' then Some (29 * 86400000)
      else None)"

definition scenario_now :: int where
  "scenario_now = 30 * 86400000"

definition priced_property :: "nat \<Rightarrow> rat \<Rightarrow> property" where
  "priced_property i v =
     \<lparr>p_id = i, p_marketing_type = Some ''BUY'', p_rs_type = None, p_city = None,
      p_price = Some v, p_base_rent = None, p_number_of_rooms = None, p_living_space = None\<rparr>"

definition deal_a :: deal where
  "deal_a = \<lparr>d_id = 1, d_deal_stage_id = Some 5, d_sold_price = None,
     d_property = Some (priced_property 21 200000),
     d_created_at = Some ''1970-01-11T00:00:00Z'', d_updated_at = Some ''1970-01-11T00:00:00Z''\<rparr>"

definition deal_b :: deal where
  "deal_b = \<lparr>d_id = 2, d_deal_stage_id = Some 5, d_sold_price = None,
     d_property = Some (priced_property 22 300000),
     d_created_at = Some ''1970-01-11T00:00:00Z'', d_updated_at = Some ''1970-01-11T00:00:00Z''\<rparr>"

definition deal_c :: deal where
  "deal_c = \<lparr>d_id = 3, d_deal_stage_id = Some 5, d_sold_price = Some 500000,
     d_property = None,
     d_created_at = Some ''1970-01-11T00:00:00Z'', d_updated_at = Some ''1970-01-30T00:00:00Z''\<rparr>"

definition scenario_pipelines :: "deal_pipeline list" where
  "scenario_pipelines =
     [\<lparr>dp_id = 1, dp_name = Some ''Sales'',
       dp_deal_stages = Some [\<lparr>ds_id = 5, ds_name = Some ''Viewing''\<rparr>]\<rparr>]"

definition numbered_deal :: "nat \<Rightarrow> deal" where
  "numbered_deal i = deal_c\<lparr>d_id := i\<rparr>"

section \<open>Fan-Out Orchestrator (full\_contact\_360, property\_performance\_report)\<close>







datatype 'v settled = Fulfilled 'v | Rejected error

fun settle :: "error + 'v \<Rightarrow> 'v settled" where
  "settle (Inl e) = Rejected e"
| "settle (Inr v) = Fulfilled v"


text \<open>
  The rendered sections: the section of the essential entity, a loaded section, a
  section reading \<^verbatim>\<open>Failed to load: ..\<close>, and the closing note listing the sections
  that failed. A JSON payload is taken to be an object of the declared shape, whose
  rendering does not throw. Rendering the value of a call that was fulfilled with
  \<^verbatim>\<open>undefined\<close> reads a property of \<^verbatim>\<open>undefined\<close> (\<^verbatim>\<open>contact.name\<close>,
  \<^verbatim>\<open>dealsRes.value.data\<close>) and throws a TypeError.
\<close>

datatype 'j report_section =
    Essential 'j
  | Loaded string 'j
  | FailedToLoad string error
  | SomeSectionsFailed "string list"


fun render :: "string \<Rightarrow> 'j payload settled \<Rightarrow> error + 'j report_section" where
  "render title (Fulfilled (Json v)) = Inr (Loaded title v)"
| "render title (Fulfilled NoContent) = Inl (OtherError ''TypeError'')"
| "render title (Rejected reason) = Inr (FailedToLoad title reason)"
















section \<open>Properties of the Request Executor\<close>

declare request_loop.simps [simp del]

lemma loop_continue:
  "attempt \<le> MAX_RETRIES \<Longrightarrow>
   attempt_once (fetch attempt) path attempt lastError = Continue le' slept \<Longrightarrow>
   request_loop fetch path attempt lastError =
     (fst (request_loop fetch path (Suc attempt) le'),
      before_fetch attempt @ slept @ snd (request_loop fetch path (Suc attempt) le'))"
  by (subst request_loop.simps) (simp split: prod.splits)

lemma loop_leave:
  "attempt \<le> MAX_RETRIES \<Longrightarrow>
   attempt_once (fetch attempt) path attempt lastError = Leave r \<Longrightarrow>
   request_loop fetch path attempt lastError = (r, before_fetch attempt)"
  by (subst request_loop.simps) simp

lemma loop_exhausted:
  "MAX_RETRIES < attempt \<Longrightarrow>
   request_loop fetch path attempt lastError =
     (Inl (case lastError of Some e \<Rightarrow> e
           | None \<Rightarrow> OtherError (''Request to '' @ path @ '' failed after 3 retries'')), [])"
  by (subst request_loop.simps) simp

lemma attempt_once_transient:
  "transient outcome \<Longrightarrow> attempt < MAX_RETRIES \<Longrightarrow>
   attempt_once outcome path attempt le =
     Continue (next_error outcome le) (retry_after_events outcome)"
  by (cases outcome) (simp_all add: attempt_once_def retry_after_events_def)

lemma attempt_once_Continue_transient:
  "attempt_once outcome path attempt le = Continue le' slept \<Longrightarrow> transient outcome"
  by (cases outcome) (auto simp: attempt_once_def split: if_splits option.splits)

lemma attempt_once_Inr:
  "attempt_once outcome path attempt le = Leave (Inr x) \<Longrightarrow>
   \<exists>res. outcome = Responded res \<and> ok res"
  by (cases outcome) (auto simp: attempt_once_def split: if_splits option.splits)

lemma attempt_once_rejected:
  "\<not> ok res \<Longrightarrow> status res \<noteq> 429 \<Longrightarrow>
   attempt_once (Responded res) path attempt le =
     Leave (Inl (PropstackError (status res) (statusText res) (text_body res) path))"
  by (simp add: attempt_once_def)

lemma loop_transient:
  assumes "attempt < MAX_RETRIES" "transient (fetch attempt)"
  shows "request_loop fetch path attempt le =
     (fst (request_loop fetch path (Suc attempt) (next_error (fetch attempt) le)),
      before_fetch attempt @ retry_after_events (fetch attempt) @
      snd (request_loop fetch path (Suc attempt) (next_error (fetch attempt) le)))"
  using assms by (intro loop_continue) (simp_all add: attempt_once_transient)

lemma loop_last_transient:
  assumes "attempt = MAX_RETRIES" "transient (fetch attempt)"
  shows "request_loop fetch path attempt le =
     (Inl (final_error (fetch attempt) path), before_fetch attempt)"
proof (cases "fetch attempt")
  case (Threw err)
  then have "attempt_once (fetch attempt) path attempt le = Continue (Some (OtherError err)) []"
    by (simp add: attempt_once_def)
  with assms Threw show ?thesis
    by (simp add: loop_continue loop_exhausted)
next
  case (Responded res)
  with assms have
    "attempt_once (fetch attempt) path attempt le = Leave (Inl (final_error (fetch attempt) path))"
    by (simp add: attempt_once_def ok_def)
  with assms show ?thesis by (simp add: loop_leave)
qed

lemma loop_starts_with_fetch:
  "attempt \<le> MAX_RETRIES \<Longrightarrow>
   \<exists>rest. snd (request_loop fetch path attempt le) = before_fetch attempt @ rest"
  by (cases "attempt_once (fetch attempt) path attempt le")
     (simp_all add: loop_continue loop_leave)

lemma attempts_append: "attempts (xs @ ys) = attempts xs + attempts ys"
  by (induction xs rule: attempts.induct) auto

lemma total_wait_append: "total_wait (xs @ ys) = total_wait xs + total_wait ys"
  by (induction xs rule: total_wait.induct) auto

lemma attempts_before_fetch: "attempts (before_fetch a) = 1"
  by (simp add: before_fetch_def)

lemma attempts_retry_after_events: "attempts (retry_after_events outcome) = 0"
  by (simp add: retry_after_events_def split: option.splits)

lemma total_wait_retry_after_events:
  "total_wait (retry_after_events outcome) =
     (case header_seconds outcome of Some s \<Rightarrow> s * 1000 | None \<Rightarrow> 0)"
  by (simp add: retry_after_events_def split: option.splits)

lemma attempts_slept:
  "attempt_once outcome path a le = Continue le' slept \<Longrightarrow> attempts slept = 0"
  by (auto simp: attempt_once_def split: fetch_outcome.splits if_splits option.splits)

lemma no_fetch_in_waits: "attempts ws = 0 \<Longrightarrow> Fetch j \<notin> set ws"
  by (induction ws rule: attempts.induct) auto

lemma fetch_in_before_fetch: "Fetch j \<in> set (before_fetch a) \<longleftrightarrow> j = a"
  by (auto simp: before_fetch_def)

lemma attempts_bound_loop:
  "attempts (snd (request_loop f p a le)) \<le> Suc MAX_RETRIES - a"
proof (induction f p a le rule: request_loop.induct)
  case (1 fetch path attempt lastError)
  show ?case
  proof (cases "attempt \<le> MAX_RETRIES")
    case False
    then show ?thesis by (simp add: loop_exhausted)
  next
    case le: True
    show ?thesis
    proof (cases "attempt_once (fetch attempt) path attempt lastError")
      case (Continue le' slept)
      from "1.IH"[OF le Continue]
      have "attempts (snd (request_loop fetch path (Suc attempt) le'))
              \<le> Suc MAX_RETRIES - Suc attempt" .
      with le Continue show ?thesis
        by (simp add: loop_continue attempts_append attempts_before_fetch attempts_slept)
    next
      case (Leave r)
      with le show ?thesis by (simp add: loop_leave attempts_before_fetch)
    qed
  qed
qed

lemma delay_acc_waits:
  "attempts ws = 0 \<Longrightarrow> delay_acc k acc (ws @ es) = delay_acc k (acc + total_wait ws) es"
  by (induction ws arbitrary: acc rule: attempts.induct) (simp_all add: add.assoc)

lemma delay_acc_before_fetch:
  "delay_acc k acc (before_fetch j @ es) =
     (if j = k then Some (acc + (if j > 0 then backoff j else 0)) else delay_acc k 0 es)"
  by (simp add: before_fetch_def)

lemma delay_loop:
  "a \<le> k \<Longrightarrow> k < MAX_RETRIES \<Longrightarrow> (\<forall>j. a \<le> j \<and> j \<le> k \<longrightarrow> transient (f j)) \<Longrightarrow>
   delay_acc (Suc k) acc (snd (request_loop f p a le)) =
     Some ((case header_seconds (f k) of Some s \<Rightarrow> s * 1000 | None \<Rightarrow> 0) + backoff (Suc k))"
proof (induction "k - a" arbitrary: a acc le)
  case 0
  then have ak: "a = k" by simp
  from 0 have tr: "transient (f k)" by simp
  from 0 have "Suc k \<le> MAX_RETRIES" by simp
  from loop_starts_with_fetch[OF this]
  obtain rest where rest:
    "snd (request_loop f p (Suc k) (next_error (f k) le)) = before_fetch (Suc k) @ rest"
    by blast
  show ?case
    using 0(3) tr rest unfolding ak
    by (simp add: loop_transient delay_acc_before_fetch delay_acc_waits
        attempts_retry_after_events total_wait_retry_after_events)
next
  case (Suc n)
  then have lt: "a < k" and aM: "a < MAX_RETRIES" and tr: "transient (f a)" by auto
  have IH: "delay_acc (Suc k) acc' (snd (request_loop f p (Suc a) le')) =
     Some ((case header_seconds (f k) of Some s \<Rightarrow> s * 1000 | None \<Rightarrow> 0) + backoff (Suc k))"
    for acc' le'
    using Suc by (intro Suc(1)) auto
  show ?case using lt
    by (simp add: loop_transient[of a f, OF aM tr] delay_acc_before_fetch delay_acc_waits
        attempts_retry_after_events IH)
qed

lemma fetch_in_loop:
  "Fetch j \<in> set (snd (request_loop f p a le)) \<Longrightarrow>
   a \<le> j \<and> j \<le> MAX_RETRIES \<and> (\<forall>i. a \<le> i \<and> i < j \<longrightarrow> transient (f i))"
proof (induction f p a le rule: request_loop.induct)
  case (1 fetch path attempt lastError)
  show ?case
  proof (cases "attempt \<le> MAX_RETRIES")
    case False
    with "1.prems" show ?thesis by (simp add: loop_exhausted)
  next
    case le: True
    show ?thesis
    proof (cases "attempt_once (fetch attempt) path attempt lastError")
      case (Leave r)
      with le "1.prems" show ?thesis
        by (auto simp: loop_leave fetch_in_before_fetch)
    next
      case (Continue le' slept)
      note IH = "1.IH"[OF le Continue]
      have tr: "transient (fetch attempt)"
        using Continue by (rule attempt_once_Continue_transient)
      from "1.prems" le Continue
      consider "j = attempt" | "Fetch j \<in> set (snd (request_loop fetch path (Suc attempt) le'))"
        by (auto simp: loop_continue fetch_in_before_fetch
            dest: no_fetch_in_waits[OF attempts_slept])
      then show ?thesis
      proof cases
        case 1
        with le show ?thesis by auto
      next
        case 2
        from IH[OF 2] have a: "Suc attempt \<le> j" "j \<le> MAX_RETRIES"
          and b: "\<forall>i. Suc attempt \<le> i \<and> i < j \<longrightarrow> transient (fetch i)" by auto
        have "transient (fetch i)" if "attempt \<le> i" "i < j" for i
          using that tr b by (cases "i = attempt") auto
        with a show ?thesis by auto
      qed
    qed
  qed
qed

lemma rejected_loop:
  "a \<le> k \<Longrightarrow> k \<le> MAX_RETRIES \<Longrightarrow> (\<forall>j. a \<le> j \<and> j < k \<longrightarrow> transient (f j)) \<Longrightarrow>
   f k = Responded res \<Longrightarrow> \<not> ok res \<Longrightarrow> status res \<noteq> 429 \<Longrightarrow>
   fst (request_loop f p a le) =
     Inl (PropstackError (status res) (statusText res) (text_body res) p) \<and>
   attempts (snd (request_loop f p a le)) = Suc (k - a)"
proof (induction "k - a" arbitrary: a le)
  case 0
  then have ak: "a = k" by simp
  from 0 show ?case unfolding ak
    by (simp add: loop_leave[of k f p le, OF _ _] attempt_once_rejected attempts_before_fetch)
next
  case (Suc n)
  then have lt: "a < k" and aM: "a < MAX_RETRIES" and tr: "transient (f a)" by auto
  have IH: "fst (request_loop f p (Suc a) le') =
     Inl (PropstackError (status res) (statusText res) (text_body res) p) \<and>
     attempts (snd (request_loop f p (Suc a) le')) = Suc (k - Suc a)" for le'
    using Suc by (intro Suc(1)) auto
  show ?case using lt
    by (simp add: loop_transient[of a f, OF aM tr] attempts_append attempts_before_fetch
        attempts_retry_after_events IH Suc_diff_Suc)
qed

lemma success_loop:
  "fst (request_loop f p a le) = Inr x \<Longrightarrow>
   \<exists>k res. a \<le> k \<and> k \<le> MAX_RETRIES \<and> f k = Responded res \<and> ok res"
proof (induction f p a le rule: request_loop.induct)
  case (1 fetch path attempt lastError)
  show ?case
  proof (cases "attempt \<le> MAX_RETRIES")
    case False
    with "1.prems" show ?thesis by (simp add: loop_exhausted)
  next
    case le: True
    show ?thesis
    proof (cases "attempt_once (fetch attempt) path attempt lastError")
      case (Leave r)
      with le "1.prems" have "attempt_once (fetch attempt) path attempt lastError = Leave (Inr x)"
        by (simp add: loop_leave)
      from attempt_once_Inr[OF this] le show ?thesis by blast
    next
      case (Continue le' slept)
      with le "1.prems" have "fst (request_loop fetch path (Suc attempt) le') = Inr x"
        by (simp add: loop_continue)
      from "1.IH"[OF le Continue this] obtain k res where
        "Suc attempt \<le> k" "k \<le> MAX_RETRIES" "fetch k = Responded res" "ok res" by blast
      then show ?thesis by (intro exI[of _ k] exI[of _ res]) simp
    qed
  qed
qed

lemma exhausted_request:
  assumes "\<forall>k\<le>MAX_RETRIES. transient (f k)"
  shows "request f p =
     (Inl (final_error (f MAX_RETRIES) p),
      [Fetch 0] @ retry_after_events (f 0) @
      [Wait 1000, Fetch 1] @ retry_after_events (f 1) @
      [Wait 2000, Fetch 2] @ retry_after_events (f 2) @
      [Wait 4000, Fetch 3])"
proof -
  have t: "transient (f 0)" "transient (f (Suc 0))" "transient (f (Suc (Suc 0)))"
    "transient (f (Suc (Suc (Suc 0))))"
    using assms by (simp_all add: MAX_RETRIES_def)
  have m: "MAX_RETRIES = Suc (Suc (Suc 0))" by (simp add: MAX_RETRIES_def)
  have l3: "request_loop f p (Suc (Suc (Suc 0))) le =
      (Inl (final_error (f (Suc (Suc (Suc 0)))) p), before_fetch (Suc (Suc (Suc 0))))" for le
    by (rule loop_last_transient) (simp_all add: m t)
  have l2: "request_loop f p (Suc (Suc 0)) le =
      (Inl (final_error (f (Suc (Suc (Suc 0)))) p),
       before_fetch (Suc (Suc 0)) @ retry_after_events (f (Suc (Suc 0))) @
       before_fetch (Suc (Suc (Suc 0))))" for le
    by (subst loop_transient) (simp_all add: m t l3)
  have l1: "request_loop f p (Suc 0) le =
      (Inl (final_error (f (Suc (Suc (Suc 0)))) p),
       before_fetch (Suc 0) @ retry_after_events (f (Suc 0)) @
       before_fetch (Suc (Suc 0)) @ retry_after_events (f (Suc (Suc 0))) @
       before_fetch (Suc (Suc (Suc 0))))" for le
    by (subst loop_transient) (simp_all add: m t l2)
  have l0: "request_loop f p 0 le =
      (Inl (final_error (f (Suc (Suc (Suc 0)))) p),
       before_fetch 0 @ retry_after_events (f 0) @
       before_fetch (Suc 0) @ retry_after_events (f (Suc 0)) @
       before_fetch (Suc (Suc 0)) @ retry_after_events (f (Suc (Suc 0))) @
       before_fetch (Suc (Suc (Suc 0))))" for le
    by (subst loop_transient) (simp_all add: m t l1)
  have n: "Suc (Suc 0) = 2" "Suc (Suc (Suc 0)) = 3" by simp_all
  show ?thesis
    unfolding request_def l0
    by (simp add: before_fetch_def backoff_def RETRY_BASE_MS_def m n)
qed

text \<open>
  Claim C1, as the code has it. When attempt \<open>k\<close> (\<open>k < 3\<close>) fails transiently, the
  executor sleeps, before attempt \<open>k + 1\<close>, for the Retry-After duration of the
  response (when a 429 carries one) and then for the computed exponential backoff
  \<open>1000 * 2 ^ k\<close> ms as well: the header's duration is added to the backoff, it does
  not replace it. Without a Retry-After header (or after a transport failure) the
  delay is the backoff alone: 1 s, 2 s, 4 s.
\<close>

theorem retry_delay_adds_header_to_backoff:
  assumes "k < MAX_RETRIES" and "\<forall>j\<le>k. transient (f j)"
  shows "delay_before (Suc k) (snd (request f p)) =
     Some ((case header_seconds (f k) of Some s \<Rightarrow> s * 1000 | None \<Rightarrow> 0)
           + RETRY_BASE_MS * 2 ^ k)"
  using assms delay_loop[of 0 k f 0 p None]
  by (simp add: delay_before_def request_def backoff_def)

theorem retry_delay_adds_header_to_backoff_witness:
  "delay_before 1 (snd (request rate_limited_then_ok ''/units/7'')) = Some (5 * 1000 + 1000) \<and>
   delay_before 1 (snd (request always_rate_limited ''/units/7'')) = Some 1000 \<and>
   delay_before 2 (snd (request always_rate_limited ''/units/7'')) = Some 2000 \<and>
   delay_before 3 (snd (request always_rate_limited ''/units/7'')) = Some 4000"
  using retry_delay_adds_header_to_backoff[of 0 rate_limited_then_ok "''/units/7''"]
    retry_delay_adds_header_to_backoff[of 0 always_rate_limited "''/units/7''"]
    retry_delay_adds_header_to_backoff[of 1 always_rate_limited "''/units/7''"]
    retry_delay_adds_header_to_backoff[of 2 always_rate_limited "''/units/7''"]
  by (simp add: MAX_RETRIES_def RETRY_BASE_MS_def rate_limited_then_ok_def
      always_rate_limited_def resp_def numeral_2_eq_2 numeral_3_eq_3)

text \<open>
  Claim C1 as stated fails: a 429 with \<^verbatim>\<open>Retry-After: 5\<close> on the first attempt is
  followed by 5000 ms + 1000 ms of sleep, not by 5000 ms.
\<close>

theorem retry_after_not_instead_of_backoff:
  "header_seconds (rate_limited_then_ok 0) = Some 5 \<and>
   snd (request rate_limited_then_ok ''/units/7'') = [Fetch 0, Wait 5000, Wait 1000, Fetch 1] \<and>
   delay_before 1 (snd (request rate_limited_then_ok ''/units/7'')) \<noteq> Some (5 * 1000)"
  by (simp add: request_def request_loop.simps attempt_once_def before_fetch_def
      backoff_def ok_def delay_before_def MAX_RETRIES_def RETRY_BASE_MS_def
      rate_limited_then_ok_def resp_def)

text \<open>
  Claim C7. (1) An attempt after the first is only ever made after transient failures
  (a rejected \<^verbatim>\<open>fetch\<close> or a 429) of all attempts before it. (2) A response with any
  other non-2xx status is thrown as a \<open>PropstackError\<close> by the attempt that received
  it, and no further attempt is made. (3) When all four attempts fail transiently the
  error of the last one is thrown. (4) A successful result only ever comes from a 2xx
  response.
\<close>

theorem request_retries_only_transient_failures:
  "(Fetch (Suc k) \<in> set (snd (request f p)) \<longrightarrow> (\<forall>i\<le>k. transient (f i))) \<and>
   (k \<le> MAX_RETRIES \<and> (\<forall>j<k. transient (f j)) \<and>
    f k = Responded res \<and> \<not> ok res \<and> status res \<noteq> 429 \<longrightarrow>
      fst (request f p) = Inl (PropstackError (status res) (statusText res) (text_body res) p) \<and>
      attempts (snd (request f p)) = Suc k) \<and>
   ((\<forall>j\<le>MAX_RETRIES. transient (f j)) \<longrightarrow>
      fst (request f p) = Inl (final_error (f MAX_RETRIES) p)) \<and>
   (fst (request f p) = Inr x \<longrightarrow> (\<exists>j\<le>MAX_RETRIES. \<exists>r. f j = Responded r \<and> ok r))"
proof (intro conjI impI)
  assume "Fetch (Suc k) \<in> set (snd (request f p))"
  from fetch_in_loop[OF this[unfolded request_def]]
  show "\<forall>i\<le>k. transient (f i)" by auto
next
  assume a: "k \<le> MAX_RETRIES \<and> (\<forall>j<k. transient (f j)) \<and>
    f k = Responded res \<and> \<not> ok res \<and> status res \<noteq> 429"
  then have "fst (request_loop f p 0 None) =
      Inl (PropstackError (status res) (statusText res) (text_body res) p) \<and>
    attempts (snd (request_loop f p 0 None)) = Suc (k - 0)"
    by (intro rejected_loop) auto
  then show "fst (request f p) =
      Inl (PropstackError (status res) (statusText res) (text_body res) p)"
    and "attempts (snd (request f p)) = Suc k"
    by (simp_all add: request_def)
next
  assume "\<forall>j\<le>MAX_RETRIES. transient (f j)"
  then show "fst (request f p) = Inl (final_error (f MAX_RETRIES) p)"
    by (simp add: exhausted_request)
next
  assume "fst (request f p) = Inr x"
  from success_loop[OF this[unfolded request_def]]
  show "\<exists>j\<le>MAX_RETRIES. \<exists>r. f j = Responded r \<and> ok r" by blast
qed

theorem request_retries_only_transient_failures_witness:
  "transient (network_down_then_404 0) \<and>
   fst (request network_down_then_404 ''/units/7'') =
     Inl (PropstackError 404 ''Not Found'' ''{}'' ''/units/7'') \<and>
   attempts (snd (request network_down_then_404 ''/units/7'')) = 2 \<and>
   fst (request always_rate_limited ''/units/7'') =
     Inl (PropstackError 429 ''Too Many Requests'' [] ''/units/7'') \<and>
   Fetch 1 \<in> set (snd (request rate_limited_then_ok ''/units/7'')) \<and>
   fst (request rate_limited_then_ok ''/units/7'') = Inr (Json ())"
proof -
  have tr: "\<forall>j\<le>MAX_RETRIES. transient (always_rate_limited j)"
    by (simp add: always_rate_limited_def resp_def)
  have r: "network_down_then_404 1 = Responded (resp 404 ''Not Found'' None ''{}'' None)"
    and t0: "\<forall>j<1. transient (network_down_then_404 j)"
    by (simp_all add: network_down_then_404_def)
  have ok: "fst (request rate_limited_then_ok ''/units/7'') = Inr (Json ())"
    and f1: "Fetch 1 \<in> set (snd (request rate_limited_then_ok ''/units/7''))"
    by (simp_all add: request_def request_loop.simps attempt_once_def before_fetch_def
      backoff_def ok_def MAX_RETRIES_def RETRY_BASE_MS_def rate_limited_then_ok_def resp_def)
  note a = request_retries_only_transient_failures[of 1 network_down_then_404 "''/units/7''"
      "resp 404 ''Not Found'' None ''{}'' None" "Json ()"]
  note b = request_retries_only_transient_failures[of 0 always_rate_limited "''/units/7''"
      "resp 404 ''Not Found'' None ''{}'' None" "Json ()"]
  from a r t0 have
    "fst (request network_down_then_404 ''/units/7'') =
       Inl (PropstackError 404 ''Not Found'' ''{}'' ''/units/7'')"
    "attempts (snd (request network_down_then_404 ''/units/7'')) = 2"
    by (simp_all add: resp_def ok_def MAX_RETRIES_def)
  moreover from b tr have
    "fst (request always_rate_limited ''/units/7'') =
       Inl (PropstackError 429 ''Too Many Requests'' [] ''/units/7'')"
    by (simp add: always_rate_limited_def resp_def)
  ultimately show ?thesis using ok f1
    by (simp add: network_down_then_404_def)
qed

text \<open>
  Claim C8. A request never issues more than 4 fetches (1 initial + 3 retries). When
  all four attempts fail transiently, exactly 4 fetches are issued and the executor
  sleeps at least 1000 + 2000 + 4000 = 7000 ms in total; with no Retry-After header
  on any response, exactly 7000 ms.
\<close>

theorem at_most_four_attempts_and_seven_seconds:
  "attempts (snd (request f p)) \<le> 4 \<and>
   ((\<forall>k\<le>MAX_RETRIES. transient (f k)) \<longrightarrow>
      attempts (snd (request f p)) = 1 + MAX_RETRIES \<and>
      total_wait (snd (request f p)) \<ge> 1000 + 2000 + 4000 \<and>
      ((\<forall>k\<le>MAX_RETRIES. header_seconds (f k) = None) \<longrightarrow>
         total_wait (snd (request f p)) = 7000))"
proof (intro conjI impI)
  show "attempts (snd (request f p)) \<le> 4"
    using attempts_bound_loop[of f p 0 None] by (simp add: request_def MAX_RETRIES_def)
next
  assume tr: "\<forall>k\<le>MAX_RETRIES. transient (f k)"
  note tr_eq = exhausted_request[OF tr, of p]
  show "attempts (snd (request f p)) = 1 + MAX_RETRIES"
    unfolding tr_eq
    by (simp add: attempts_append attempts_retry_after_events MAX_RETRIES_def)
  show "1000 + 2000 + 4000 \<le> total_wait (snd (request f p))"
    unfolding tr_eq
    by (simp add: total_wait_append)
  assume "\<forall>k\<le>MAX_RETRIES. header_seconds (f k) = None"
  then have "header_seconds (f 0) = None" "header_seconds (f 1) = None"
    "header_seconds (f 2) = None"
    by (simp_all add: MAX_RETRIES_def)
  then show "total_wait (snd (request f p)) = 7000"
    unfolding tr_eq
    by (simp add: total_wait_append total_wait_retry_after_events)
qed

theorem at_most_four_attempts_and_seven_seconds_witness:
  "attempts (snd (request always_rate_limited ''/units/7'')) = 4 \<and>
   total_wait (snd (request always_rate_limited ''/units/7'')) = 7000"
proof -
  have "\<forall>k\<le>MAX_RETRIES. transient (always_rate_limited k)"
    and "\<forall>k\<le>MAX_RETRIES. header_seconds (always_rate_limited k) = None"
    by (simp_all add: always_rate_limited_def resp_def)
  with at_most_four_attempts_and_seven_seconds[of always_rate_limited "''/units/7''"]
  show ?thesis by (simp add: MAX_RETRIES_def)
qed

section \<open>Properties of the Scoring Engine\<close>

lemma tally_fields:
  "maxScore (tally c w hit st) = maxScore st + w"
  "score (tally c w hit st) = (if hit then score st + w else score st)"
  by (simp_all add: tally_def)

lemma score_range_shape:
  "score_range c w lo hi v st = st \<or> (\<exists>hit. score_range c w lo hi v st = tally c w hit st)"
  by (cases v) (auto simp: score_range_def)

lemma score_dimension_shape:
  "score_dimension c pty sp st = st \<or>
   (\<exists>hit. score_dimension c pty sp st = tally c (weight c) hit st)"
proof (cases c)
  case Price
  then show ?thesis
    using score_range_shape[of Price 2 "sp_price sp" "sp_price_to sp"] by simp
next
  case Rent
  then show ?thesis
    using score_range_shape[of Rent 2 "sp_base_rent sp" "sp_base_rent_to sp"] by simp
next
  case Rooms
  then show ?thesis
    using score_range_shape[of Rooms 2 "sp_number_of_rooms sp" "sp_number_of_rooms_to sp"]
    by simp
next
  case LivingSpace
  then show ?thesis
    using score_range_shape[of LivingSpace 1 "sp_living_space sp" "sp_living_space_to sp"]
    by simp
qed (auto simp: Let_def)

lemma score_dimension_bounded:
  "score st \<le> maxScore st \<Longrightarrow>
   score (score_dimension c pty sp st) \<le> maxScore (score_dimension c pty sp st)"
  using score_dimension_shape[of c pty sp st]
  by (auto simp: tally_fields)

lemma fold_dimension_bounded:
  "score st \<le> maxScore st \<Longrightarrow>
   score (fold (\<lambda>c. score_dimension c pty sp) cs st)
     \<le> maxScore (fold (\<lambda>c. score_dimension c pty sp) cs st)"
  by (induction cs arbitrary: st) (simp_all add: score_dimension_bounded)

text \<open>On the profiles of the declared interface (no range bound missing) every block
  counts its dimension exactly when both sides have it.\<close>

lemma score_range_declared:
  "lo \<noteq> Missing \<Longrightarrow> hi \<noteq> Missing \<Longrightarrow>
   score_range c w lo hi v st =
     (if (is_number lo \<or> is_number hi) \<and> v \<noteq> None
      then tally c w (inRange lo hi (the v)) st else st)"
  by (cases v; cases lo; cases hi) (simp_all add: score_range_def)

lemma truthy_given: "truthy v = given v"
  by (cases v) (simp_all add: truthy_def given_def)

lemma has_length_some_listed: "has_length v = some_listed v"
  by (cases v) (simp_all add: has_length_def some_listed_def)

lemma fmt_nonempty_given: "(fmt v [] \<noteq> []) = given v"
  by (cases v) (simp_all add: fmt_def given_def)

lemma weight_pos: "0 < weight c"
  by (cases c) simp_all

lemma score_dimension_declared:
  assumes "declared_bounds sp"
  shows "(\<not> applicable c pty sp \<longrightarrow> score_dimension c pty sp st = st) \<and>
         (applicable c pty sp \<longrightarrow>
            (\<exists>hit. score_dimension c pty sp st = tally c (weight c) hit st))"
  using assms
  by (cases c)
     (auto simp: applicable_def declared_bounds_def truthy_given has_length_some_listed
        fmt_nonempty_given score_range_declared unwrapNumber_def Let_def)

lemma dimension_counted_on_declared_bounds:
  assumes "declared_bounds sp"
  shows "(maxScore (score_dimension c pty sp st) = maxScore st + weight c
            \<longleftrightarrow> spec_specifies c sp \<and> spec_has_value c pty) \<and>
         (\<not> (spec_specifies c sp \<and> spec_has_value c pty) \<longrightarrow>
            score_dimension c pty sp st = st)"
proof (cases "applicable c pty sp")
  case True
  with score_dimension_declared[OF assms, of c pty st]
  obtain hit where "score_dimension c pty sp st = tally c (weight c) hit st" by blast
  with True show ?thesis by (simp add: applicable_def tally_fields)
next
  case False
  with score_dimension_declared[OF assms, of c pty st]
  have "score_dimension c pty sp st = st" by blast
  with False weight_pos[of c] show ?thesis by (simp add: applicable_def)
qed

lemma score_profile_bounded: "score (score_profile pty sp) \<le> maxScore (score_profile pty sp)"
  unfolding score_profile_def by (rule fold_dimension_bounded) (simp add: init_state_def)

lemma score_profiles_invariant:
  "r \<in> set (score_profiles pty sps) \<Longrightarrow> 0 < r_score r \<and> r_score r \<le> r_maxScore r"
  by (induction sps)
     (auto simp: Let_def to_result_def score_profile_bounded split: if_splits)

lemma length_score_profiles:
  "length (score_profiles pty sps) =
     length (filter (\<lambda>sp. sp_active sp = Some True \<and> 0 < score (score_profile pty sp)) sps)"
  by (induction sps) (simp_all add: Let_def)

lemma set_insert_by: "set (insert_by cmp x ys) = insert x (set ys)"
  by (induction ys) auto

lemma length_insert_by: "length (insert_by cmp x ys) = Suc (length ys)"
  by (induction ys) auto

lemma set_sort_by: "set (sort_by cmp xs) = set xs"
  by (induction xs) (simp_all add: sort_by_def set_insert_by)

lemma length_sort_by: "length (sort_by cmp xs) = length xs"
  by (induction xs) (simp_all add: sort_by_def length_insert_by)

lemma compare_results_ranked: "(compare_results a b \<le> 0) = ranked_before a b"
  by (auto simp: compare_results_def ranked_before_def)

lemma ranked_before_total: "\<not> ranked_before a b \<Longrightarrow> ranked_before b a"
  by (auto simp: ranked_before_def)

lemma ranked_before_trans: "ranked_before a b \<Longrightarrow> ranked_before b c \<Longrightarrow> ranked_before a c"
  by (auto simp: ranked_before_def)

lemma sorted_insert_by:
  "sorted_wrt ranked_before ys \<Longrightarrow> sorted_wrt ranked_before (insert_by compare_results x ys)"
proof (induction ys)
  case Nil
  then show ?case by simp
next
  case (Cons y ys)
  show ?case
  proof (cases "compare_results x y \<le> 0")
    case True
    then have xy: "ranked_before x y" by (simp add: compare_results_ranked)
    with Cons.prems have "\<forall>z\<in>set ys. ranked_before x z"
      by (auto intro: ranked_before_trans)
    with True xy Cons.prems show ?thesis by simp
  next
    case False
    then have yx: "ranked_before y x"
      by (simp add: compare_results_ranked ranked_before_total)
    with False Cons show ?thesis by (auto simp: set_insert_by)
  qed
qed

lemma sorted_sort_by: "sorted_wrt ranked_before (sort_by compare_results xs)"
  by (induction xs) (simp_all add: sort_by_def sorted_insert_by)

lemma sorted_wrt_take: "sorted_wrt P xs \<Longrightarrow> sorted_wrt P (take n xs)"
  by (induction xs arbitrary: n) (auto simp: take_Cons' dest: in_set_takeD)

lemma score_profiles_origin:
  "r \<in> set (score_profiles pty sps) \<Longrightarrow>
   \<exists>sp\<in>set sps. sp_active sp = Some True \<and> r = to_result sp (score_profile pty sp)"
  by (induction sps) (auto simp: Let_def split: if_splits)

text \<open>
  Claim C2, evaluated on the code at a criteria-set whose JSON object has no keys for
  the range bounds. The set specifies no price constraint, yet the price block's
  guard (\<^verbatim>\<open>sp.price !== null || sp.price_to !== null\<close>) holds for the missing keys and
  its range test takes them as unbounded: the block adds its weight 2 to \<open>maxScore\<close>
  and to \<open>score\<close>, and the profile, which has no criteria at all, is listed as a
  match with 2 of 2. With the bounds given as null the same block leaves the state as
  it is.
\<close>

theorem missing_bounds_are_scored:
  "\<not> spec_specifies Price keyless_profile \<and>
   spec_has_value Price berlin_flat \<and>
   score_dimension Price berlin_flat keyless_profile init_state =
     \<lparr>score = 2, maxScore = 2, matches = [Price], mismatches = []\<rparr> \<and>
   score_profile berlin_flat keyless_profile =
     \<lparr>score = 2, maxScore = 2, matches = [Price], mismatches = []\<rparr> \<and>
   rank_profiles berlin_flat [keyless_profile] =
     MatchList 1 1
       [\<lparr>profileId = 13, clientId = Some 103, r_score = 2, r_maxScore = 2,
         r_matches = [Price], r_mismatches = []\<rparr>] \<and>
   score_dimension Price berlin_flat no_criteria init_state = init_state"
  by code_simp

text \<open>
  Claim C5. The reference property (BUY, Berlin, 350000) against the criteria-set
  (BUY, cities Berlin and Potsdam, price 300000 to 400000) scores 8 of 8, from the
  type, city and price dimensions, with no mismatch; against (RENT, cities Munich) it
  scores 0 of 6, and that candidate is not in the results.
\<close>

theorem berlin_scenario_scores:
  "score_profile berlin_flat buyer_profile =
     \<lparr>score = 8, maxScore = 8, matches = [MarketingType, City, Price], mismatches = []\<rparr> \<and>
   weight MarketingType + weight City + weight Price = 8 \<and>
   score_profile berlin_flat renter_profile =
     \<lparr>score = 0, maxScore = 6, matches = [], mismatches = [MarketingType, City]\<rparr> \<and>
   score_profiles berlin_flat [renter_profile] = [] \<and>
   rank_profiles berlin_flat [renter_profile] = NoMatchingProfiles 1 \<and>
   rank_profiles berlin_flat [buyer_profile, renter_profile] =
     MatchList 1 2
       [\<lparr>profileId = 11, clientId = Some 101, r_score = 8, r_maxScore = 8,
         r_matches = [MarketingType, City, Price], r_mismatches = []\<rparr>]"
  by code_simp

text \<open>
  Claim C6. When the tool lists matches, every listed candidate has
  \<open>0 < score \<le> maxScore\<close> and is the result of an active profile of the fetched ones;
  the list is the first 20 entries of all non-zero-scoring candidates sorted by score
  descending, ties by fewer mismatches; it has at most 20 entries; and the count
  reported with it is the number of all non-zero-scoring (active) candidates.
\<close>

theorem ranked_output_invariants:
  assumes "rank_profiles pty allProfiles = MatchList n m tp"
  shows "(\<forall>r\<in>set tp. 0 < r_score r \<and> r_score r \<le> r_maxScore r \<and>
            (\<exists>sp\<in>set allProfiles. r = to_result sp (score_profile pty sp))) \<and>
         sorted_wrt ranked_before tp \<and>
         length tp \<le> 20 \<and>
         tp = take 20 (sort_by compare_results (score_profiles pty allProfiles)) \<and>
         n = length (filter (\<lambda>sp. sp_active sp = Some True \<and> 0 < score (score_profile pty sp))
                       allProfiles) \<and>
         m = length allProfiles"
proof -
  let ?results = "sort_by compare_results (score_profiles pty allProfiles)"
  from assms have tp: "tp = take 20 ?results" and n: "n = length ?results"
    and m: "m = length allProfiles"
    by (auto simp: rank_profiles_def Let_def split: if_splits)
  have "set tp \<subseteq> set (score_profiles pty allProfiles)"
    unfolding tp using set_take_subset[of 20 ?results] by (simp add: set_sort_by)
  then have inv: "\<forall>r\<in>set tp. 0 < r_score r \<and> r_score r \<le> r_maxScore r \<and>
            (\<exists>sp\<in>set allProfiles. r = to_result sp (score_profile pty sp))"
    using score_profiles_invariant[of _ pty allProfiles]
      score_profiles_origin[of _ pty allProfiles] by blast
  have srt: "sorted_wrt ranked_before tp"
    unfolding tp by (intro sorted_wrt_take sorted_sort_by)
  have len: "length tp \<le> 20" unfolding tp by simp
  from inv srt len tp n m show ?thesis
    by (simp add: length_sort_by length_score_profiles)
qed

theorem ranked_output_invariants_witness:
  "rank_profiles berlin_flat [contested_profile, renter_profile, city_profile, buyer_profile] =
     MatchList 3 4
       [to_result buyer_profile (score_profile berlin_flat buyer_profile),
        to_result city_profile (score_profile berlin_flat city_profile),
        to_result contested_profile (score_profile berlin_flat contested_profile)] \<and>
   map r_score
       [to_result buyer_profile (score_profile berlin_flat buyer_profile),
        to_result city_profile (score_profile berlin_flat city_profile),
        to_result contested_profile (score_profile berlin_flat contested_profile)] = [8, 3, 3] \<and>
   map (\<lambda>r. length (r_mismatches r))
       [to_result buyer_profile (score_profile berlin_flat buyer_profile),
        to_result city_profile (score_profile berlin_flat city_profile),
        to_result contested_profile (score_profile berlin_flat contested_profile)] = [0, 0, 1] \<and>
   sorted_wrt ranked_before
       [to_result buyer_profile (score_profile berlin_flat buyer_profile),
        to_result city_profile (score_profile berlin_flat city_profile),
        to_result contested_profile (score_profile berlin_flat contested_profile)] \<and>
   length
       [to_result buyer_profile (score_profile berlin_flat buyer_profile),
        to_result city_profile (score_profile berlin_flat city_profile),
        to_result contested_profile (score_profile berlin_flat contested_profile)] \<le> 20 \<and>
   (3::nat) = length (filter (\<lambda>sp. sp_active sp = Some True \<and>
                         0 < score (score_profile berlin_flat sp))
                 [contested_profile, renter_profile, city_profile, buyer_profile])"
proof -
  have eq: "rank_profiles berlin_flat
       [contested_profile, renter_profile, city_profile, buyer_profile] =
     MatchList 3 4
       [to_result buyer_profile (score_profile berlin_flat buyer_profile),
        to_result city_profile (score_profile berlin_flat city_profile),
        to_result contested_profile (score_profile berlin_flat contested_profile)]"
    by code_simp
  have sc: "map r_score
       [to_result buyer_profile (score_profile berlin_flat buyer_profile),
        to_result city_profile (score_profile berlin_flat city_profile),
        to_result contested_profile (score_profile berlin_flat contested_profile)] = [8, 3, 3]"
    by code_simp
  have mm: "map (\<lambda>r. length (r_mismatches r))
       [to_result buyer_profile (score_profile berlin_flat buyer_profile),
        to_result city_profile (score_profile berlin_flat city_profile),
        to_result contested_profile (score_profile berlin_flat contested_profile)] = [0, 0, 1]"
    by code_simp
  note inv = ranked_output_invariants[OF eq]
  from inv have
    "sorted_wrt ranked_before
       [to_result buyer_profile (score_profile berlin_flat buyer_profile),
        to_result city_profile (score_profile berlin_flat city_profile),
        to_result contested_profile (score_profile berlin_flat contested_profile)]"
    by (rule conjunct2[THEN conjunct1])
  moreover from inv have
    "length
       [to_result buyer_profile (score_profile berlin_flat buyer_profile),
        to_result city_profile (score_profile berlin_flat city_profile),
        to_result contested_profile (score_profile berlin_flat contested_profile)] \<le> 20"
    by (rule conjunct2[THEN conjunct2, THEN conjunct1])
  moreover from inv have
    "(3::nat) = length (filter (\<lambda>sp. sp_active sp = Some True \<and>
                         0 < score (score_profile berlin_flat sp))
                 [contested_profile, renter_profile, city_profile, buyer_profile])"
    by (rule conjunct2[THEN conjunct2, THEN conjunct2, THEN conjunct2, THEN conjunct1])
  ultimately show ?thesis using eq sc mm by (intro conjI)
qed

section \<open>Properties of the pagination walks\<close>

text \<open>As long as every page holds at most the \<^verbatim>\<open>per_page\<close> items it was asked for, the
  profile walk never gathers more than the cap.\<close>

lemma walk_profiles_within_cap:
  "(\<forall>pg per res. fetch pg per = Inr res \<longrightarrow> length (data res) \<le> per) \<Longrightarrow>
   walk_profiles fetch cap pg hasMore acc = Inr out \<Longrightarrow> length acc \<le> cap \<Longrightarrow>
   length out \<le> cap"
proof (induction fetch cap pg hasMore acc rule: walk_profiles.induct)
  case (1 fetch maxProfiles pg hasMore allProfiles)
  show ?case
  proof (cases "hasMore \<and> length allProfiles < maxProfiles")
    case False
    with "1.prems" show ?thesis by (auto split: if_splits)
  next
    case go: True
    show ?thesis
    proof (cases "fetch pg (min 100 (maxProfiles - length allProfiles))")
      case (Inl e)
      with go "1.prems" show ?thesis by simp
    next
      case (Inr res)
      from "1.prems"(1) Inr have le: "length (data res) \<le> maxProfiles - length allProfiles"
        by fastforce
      show ?thesis
      proof (cases "data res = []")
        case True
        with go Inr "1.prems" show ?thesis by simp
      next
        case False
        from le go have "length (allProfiles @ data res) \<le> maxProfiles" by auto
        with "1.IH"(1)[OF go Inr False "1.prems"(1)] "1.prems" go Inr False show ?thesis
          by simp
      qed
    qed
  qed
qed

lemma walk_250_cap_150:
  "walk_profiles (serve (upstream_profiles 250)) 150 1 True [] =
     Inr (map numbered_profile ([0..<100] @ [50..<100]))"
  by (simp add: serve_def upstream_profiles_def take_map drop_map)

lemma walk_150_cap_150:
  "walk_profiles (serve (upstream_profiles 150)) 150 1 True [] =
     Inr (map numbered_profile ([0..<100] @ [50..<100]))"
  by (simp add: serve_def upstream_profiles_def take_map drop_map)

lemma walk_120_cap_150:
  "walk_profiles (serve (upstream_profiles 120)) 150 1 True [] =
     Inr (map numbered_profile ([0..<100] @ [50..<100]))"
  by (simp add: serve_def upstream_profiles_def take_map drop_map)

text \<open>The sibling walk of pipeline\_summary does flag its cap.\<close>

lemma pipeline_cap_is_flagged:
  "maxDeals \<le> length allDeals \<Longrightarrow> maxDeals < t \<Longrightarrow>
   cap_warnings allDeals (Some t) = [SummaryCapped maxDeals t]"
  by (simp add: cap_warnings_def)

text \<open>
  Claim C3, evaluated on the code at the claim's own scenario (upstream total 250,
  page size 100, cap 150) and at an upstream of 120 profiles. The walk gathers 150
  items in both, so for 120 upstream profiles the count is not \<open>min 120 150\<close> (the
  second page is asked for with \<^verbatim>\<open>per_page = 50\<close> and \<^verbatim>\<open>page = 2\<close>, which are items 50
  to 99 again). And the tool's answer for the truncated walk over 250 profiles is the
  very answer it gives for an upstream of exactly 150 profiles: nothing in it tells
  the caller that the cap cut the result short.
\<close>

theorem capped_profile_walk_is_silent:
  "walk_profiles (serve (upstream_profiles 250)) 150 1 True [] =
     Inr (map numbered_profile ([0..<100] @ [50..<100])) \<and>
   length (map numbered_profile ([0..<100] @ [50..<100])) = 150 \<and>
   match_contacts_to_property (Inr pty) (serve (upstream_profiles 250)) (Some 150) =
     TextResult (rank_profiles pty (map numbered_profile ([0..<100] @ [50..<100]))) \<and>
   match_contacts_to_property (Inr pty) (serve (upstream_profiles 250)) (Some 150) =
     match_contacts_to_property (Inr pty) (serve (upstream_profiles 150)) (Some 150) \<and>
   walk_profiles (serve (upstream_profiles 120)) 150 1 True [] =
     Inr (map numbered_profile ([0..<100] @ [50..<100])) \<and>
   length (map numbered_profile ([0..<100] @ [50..<100])) \<noteq> min 120 150"
proof -
  have a: "match_contacts_to_property (Inr pty) (serve (upstream_profiles 250)) (Some 150) =
     TextResult (rank_profiles pty (map numbered_profile ([0..<100] @ [50..<100])))"
    by (simp only: match_contacts_to_property_def option.case sum.case walk_250_cap_150)
  have b: "match_contacts_to_property (Inr pty) (serve (upstream_profiles 150)) (Some 150) =
     TextResult (rank_profiles pty (map numbered_profile ([0..<100] @ [50..<100])))"
    by (simp only: match_contacts_to_property_def option.case sum.case walk_150_cap_150)
  have c: "length (map numbered_profile ([0..<100] @ [50..<100])) = 150" by simp
  have d: "length (map numbered_profile ([0..<100] @ [50..<100])) \<noteq> min 120 150" by simp
  show ?thesis
    using walk_250_cap_150 walk_120_cap_150 a c d by (simp only: b simp_thms)
qed

text \<open>
  Claim C10. When the first page of deals comes without \<^verbatim>\<open>meta\<close>, the walk of
  pipeline\_summary returns after that one page (\<^verbatim>\<open>page\<close> ends at 2) with exactly that
  page's deals, whatever the upstream would answer for later pages, and the summary
  carries no warning.
\<close>

theorem missing_meta_stops_after_first_page:
  assumes "fetch 1 = Inr res" and "meta res = None"
  shows "walk_deals fetch 1 [] = Some (Inr (data res, None, 2)) \<and>
         cap_warnings (data res) None = [] \<and>
         pipeline_summary (Inr pipelines) fetch getTime now =
           Some (TextResult (summarise pipelines getTime now (data res) None)) \<and>
         warnings (summarise pipelines getTime now (data res) None) = []"
proof -
  have p: "push_page [] res = data res" by (simp add: push_page_def)
  have w: "walk_deals fetch 1 [] = Some (Inr (data res, None, 2))"
    using assms by (subst walk_deals.simps) (simp add: p walk_on_def)
  show ?thesis
    by (simp add: w pipeline_summary_def summarise_def cap_warnings_def Let_def
        del: One_nat_def)
qed

theorem missing_meta_stops_after_first_page_witness:
  "walk_deals (serve_without_meta (map numbered_deal [0..<250])) 1 [] =
     Some (Inr (map numbered_deal [0..<100], None, 2)) \<and>
   warnings (summarise scenario_pipelines scenario_getTime scenario_now
               (map numbered_deal [0..<100]) None) = []"
proof -
  have "serve_without_meta (map numbered_deal [0..<250]) 1 =
      Inr \<lparr>data = map numbered_deal [0..<100], meta = None\<rparr>"
    by (simp add: serve_without_meta_def take_map)
  from missing_meta_stops_after_first_page
         [of "serve_without_meta (map numbered_deal [0..<250])"
             "\<lparr>data = map numbered_deal [0..<100], meta = None\<rparr>"
             scenario_pipelines scenario_getTime scenario_now, OF this]
  show ?thesis by (simp del: One_nat_def)
qed

section \<open>Properties of the Aggregation Engine\<close>

lemma deal_price_spec: "deal_price d = spec_value d"
  by (auto simp: deal_price_def spec_value_def unwrapNumber_def split: option.splits)

lemma staleThreshold_fourteen_days: "staleThresholdMs = fourteen_days"
  by (simp add: staleThresholdMs_def fourteen_days_def)

lemma lastUpdate_spec: "lastUpdate d = spec_last_update d"
  by (simp add: lastUpdate_def spec_last_update_def split: option.splits)

lemma is_stale_spec:
  "getTime [] = None \<Longrightarrow> is_stale getTime now d = spec_stale getTime now d"
  by (cases "spec_last_update d")
     (auto simp: is_stale_def spec_stale_def lastUpdate_spec truthy_def
        staleThreshold_fourteen_days split: option.splits)

lemma aggregate_deal_fields:
  "totalValue (aggregate_deal names getTime now d agg) = totalValue agg + deal_price d"
  "totalDeals (aggregate_deal names getTime now d agg) = totalDeals agg + 1"
  "staleDeals (aggregate_deal names getTime now d agg) =
     staleDeals agg @ filter (is_stale getTime now) [d]"
  "stageStats (aggregate_deal names getTime now d agg) key =
     (if stageName names d = key
      then Some \<lparr>st_count = st_count (old_stat agg key) + 1,
                 st_value = st_value (old_stat agg key) + deal_price d,
                 st_deals = st_deals (old_stat agg key) @ [d]\<rparr>
      else stageStats agg key)"
  by (simp_all add: aggregate_deal_def Let_def)

lemma fold_totalValue:
  "totalValue (fold (aggregate_deal names getTime now) ds agg) =
     totalValue agg + (\<Sum>d\<leftarrow>ds. deal_price d)"
  by (induction ds arbitrary: agg) (simp_all add: aggregate_deal_fields)

lemma fold_totalDeals:
  "totalDeals (fold (aggregate_deal names getTime now) ds agg) = totalDeals agg + length ds"
  by (induction ds arbitrary: agg) (simp_all add: aggregate_deal_fields)

lemma fold_staleDeals:
  "staleDeals (fold (aggregate_deal names getTime now) ds agg) =
     staleDeals agg @ filter (is_stale getTime now) ds"
  by (induction ds arbitrary: agg) (simp_all add: aggregate_deal_fields)

lemma fold_stageStats:
  "stageStats (fold (aggregate_deal names getTime now) ds agg) key =
     (if filter (\<lambda>d. stageName names d = key) ds = [] then stageStats agg key
      else Some \<lparr>st_count = st_count (old_stat agg key)
                              + length (filter (\<lambda>d. stageName names d = key) ds),
                 st_value = st_value (old_stat agg key)
                              + (\<Sum>d\<leftarrow>filter (\<lambda>d. stageName names d = key) ds. deal_price d),
                 st_deals = st_deals (old_stat agg key)
                              @ filter (\<lambda>d. stageName names d = key) ds\<rparr>)"
proof (induction ds arbitrary: agg)
  case Nil
  then show ?case by simp
next
  case (Cons d ds)
  show ?case
  proof (cases "stageName names d = key")
    case True
    then have o: "old_stat (aggregate_deal names getTime now d agg) key =
        \<lparr>st_count = st_count (old_stat agg key) + 1,
         st_value = st_value (old_stat agg key) + deal_price d,
         st_deals = st_deals (old_stat agg key) @ [d]\<rparr>"
      by (simp add: old_stat_def[of "aggregate_deal names getTime now d agg"]
          aggregate_deal_fields)
    from True show ?thesis
      by (simp add: Cons.IH o aggregate_deal_fields add.assoc)
  next
    case False
    then have o: "old_stat (aggregate_deal names getTime now d agg) key = old_stat agg key"
      by (simp add: old_stat_def aggregate_deal_fields)
    from False show ?thesis
      by (simp add: Cons.IH o aggregate_deal_fields)
  qed
qed

lemma old_stat_empty:
  "old_stat empty_aggregate key = \<lparr>st_count = 0, st_value = 0, st_deals = []\<rparr>"
  by (simp add: old_stat_def empty_aggregate_def)

text \<open>
  Claim C9. With a date parser that reads the empty string as no date: a deal
  contributes its own sold price if present, else its linked property's price if
  present, else zero; the total and every stage bucket sum these contributions over
  the deals (of that stage); the stale list holds, in order, exactly the deals whose
  last update (the update time if present, else the creation time) is more than 14
  days before now, and no deal without a timestamp. In the scenario of three deals
  the total and the bucket value are 1000000 and the stale list is the first two.
\<close>

theorem pipeline_values_and_staleness:
  assumes "getTime [] = None"
  shows "deal_price d = spec_value d \<and>
    is_stale getTime now d = spec_stale getTime now d \<and>
    (d_updated_at d = None \<and> d_created_at d = None \<longrightarrow> \<not> is_stale getTime now d) \<and>
    totalValue (aggregate_deals names getTime now deals) = (\<Sum>x\<leftarrow>deals. spec_value x) \<and>
    stageStats (aggregate_deals names getTime now deals) key =
      (if filter (\<lambda>x. stageName names x = key) deals = [] then None
       else Some \<lparr>st_count = length (filter (\<lambda>x. stageName names x = key) deals),
                  st_value = (\<Sum>x\<leftarrow>filter (\<lambda>x. stageName names x = key) deals. spec_value x),
                  st_deals = filter (\<lambda>x. stageName names x = key) deals\<rparr>) \<and>
    staleDeals (aggregate_deals names getTime now deals) = filter (spec_stale getTime now) deals"
proof (intro conjI impI)
  show "deal_price d = spec_value d" by (rule deal_price_spec)
  show "is_stale getTime now d = spec_stale getTime now d"
    using assms by (rule is_stale_spec)
  show "\<not> is_stale getTime now d" if "d_updated_at d = None \<and> d_created_at d = None"
    using that by (simp add: is_stale_def lastUpdate_def truthy_def)
  show "totalValue (aggregate_deals names getTime now deals) = (\<Sum>x\<leftarrow>deals. spec_value x)"
    by (simp add: aggregate_deals_def fold_totalValue empty_aggregate_def
        flip: deal_price_spec)
  show "stageStats (aggregate_deals names getTime now deals) key =
      (if filter (\<lambda>x. stageName names x = key) deals = [] then None
       else Some \<lparr>st_count = length (filter (\<lambda>x. stageName names x = key) deals),
                  st_value = (\<Sum>x\<leftarrow>filter (\<lambda>x. stageName names x = key) deals. spec_value x),
                  st_deals = filter (\<lambda>x. stageName names x = key) deals\<rparr>)"
    by (simp add: aggregate_deals_def fold_stageStats old_stat_empty flip: deal_price_spec)
       (simp add: empty_aggregate_def)
  have "is_stale getTime now = spec_stale getTime now"
    using assms by (auto simp: is_stale_spec)
  then show "staleDeals (aggregate_deals names getTime now deals) =
      filter (spec_stale getTime now) deals"
    by (simp add: aggregate_deals_def fold_staleDeals empty_aggregate_def)
qed

theorem pipeline_values_and_staleness_witness:
  "totalValue (aggregate_deals (build_stageNames scenario_pipelines) scenario_getTime
       scenario_now [deal_a, deal_b, deal_c]) = 1000000 \<and>
   map_option st_value
     (stageStats (aggregate_deals (build_stageNames scenario_pipelines) scenario_getTime
        scenario_now [deal_a, deal_b, deal_c]) ''Viewing'') = Some 1000000 \<and>
   staleDeals (aggregate_deals (build_stageNames scenario_pipelines) scenario_getTime
       scenario_now [deal_a, deal_b, deal_c]) = [deal_a, deal_b]"
proof -
  have g: "scenario_getTime [] = None" by (simp add: scenario_getTime_def)
  have v: "spec_value deal_a = 200000" "spec_value deal_b = 300000" "spec_value deal_c = 500000"
    by (simp_all add: spec_value_def deal_a_def deal_b_def deal_c_def priced_property_def)
  have s: "spec_stale scenario_getTime scenario_now deal_a"
    "spec_stale scenario_getTime scenario_now deal_b"
    "\<not> spec_stale scenario_getTime scenario_now deal_c"
    by (simp_all add: spec_stale_def spec_last_update_def scenario_getTime_def scenario_now_def
        fourteen_days_def deal_a_def deal_b_def deal_c_def)
  have k: "stageName (build_stageNames scenario_pipelines) deal_a = ''Viewing''"
    "stageName (build_stageNames scenario_pipelines) deal_b = ''Viewing''"
    "stageName (build_stageNames scenario_pipelines) deal_c = ''Viewing''"
    by (simp_all add: stageName_def build_stageNames_def scenario_pipelines_def add_pipeline_def
        add_stage_def deal_a_def deal_b_def deal_c_def)
  note t = pipeline_values_and_staleness[where getTime = scenario_getTime and d = deal_a
      and now = scenario_now and names = "build_stageNames scenario_pipelines"
      and deals = "[deal_a, deal_b, deal_c]" and key = "''Viewing''", OF g]
  from t have "totalValue (aggregate_deals (build_stageNames scenario_pipelines) scenario_getTime
       scenario_now [deal_a, deal_b, deal_c]) = 1000000"
    by (simp add: v)
  moreover from t have "map_option st_value
     (stageStats (aggregate_deals (build_stageNames scenario_pipelines) scenario_getTime
        scenario_now [deal_a, deal_b, deal_c]) ''Viewing'') = Some 1000000"
    by (simp add: v k)
  moreover from t have "staleDeals (aggregate_deals (build_stageNames scenario_pipelines)
       scenario_getTime scenario_now [deal_a, deal_b, deal_c]) = [deal_a, deal_b]"
    by (simp add: s)
  ultimately show ?thesis by (intro conjI)
qed

section \<open>Properties of the Fan-Out Orchestrator\<close>






lemma render_empty: "render title (settle (Inr NoContent)) = Inl (OtherError ''TypeError'')"
  by simp










end
